theory Spec2Isabelle
  imports Main "HOL-Library.Product_Lexorder" "HOL-Library.List_Lexorder"
begin

section \<open>JavaScript values and exceptions\<close>

text \<open>
  The repository layer of ambrosus-node-extended is TypeScript compiled to JavaScript.
  Queries, items, projections and the results of the store driver are plain JavaScript
  values. An object is an association list of its own properties in insertion order
  (a well-formed object has distinct keys); \<open>JId\<close> is a store-generated ObjectId.
  Values are data: no property of an object is a function.
\<close>

datatype jsval =
    JUndefined
  | JNull
  | JBool bool
  | JNum int
  | JStr string
  | JId nat
  | JArr "jsval list"
  | JObj "(string \<times> jsval) list"

type_synonym obj = "(string \<times> jsval) list"

text \<open>
  What a method can throw: a raw exception of the store driver or of the database client,
  a JavaScript \<open>TypeError\<close>, and the two error classes of the repository layer.
  \<open>new RepositoryError(err)\<close> wraps the caught value, \<open>new RepositoryError({ reason })\<close>
  carries a reason string.
\<close>

datatype thrown =
    StoreFailure string
  | TypeError string
  | DeveloperError string
  | RepositoryError payload
and payload =
    Cause thrown
  | Reason string

fun is_RepositoryError :: "thrown \<Rightarrow> bool" where
  "is_RepositoryError (RepositoryError _) = True"
| "is_RepositoryError _ = False"

text \<open>
  Property read \<open>v.k\<close> of a data property. Reading a property of \<open>undefined\<close> or
  \<open>null\<close> throws a TypeError; a missing property reads as \<open>undefined\<close>. Strings and
  arrays have a \<open>length\<close>. The model is used for the names the repository reads
  (\<open>keys\<close>, \<open>length\<close>, \<open>result\<close>, \<open>n\<close>, \<open>value\<close>, \<open>count\<close>); none of them is
  inherited from \<open>Object.prototype\<close>, and the one that is a method of arrays,
  \<open>keys\<close>, is treated in \<open>keys_length\<close> below.
\<close>

fun get_prop :: "jsval \<Rightarrow> string \<Rightarrow> thrown + jsval" where
  "get_prop JUndefined k = Inl (TypeError (''Cannot read property '' @ k @ '' of undefined''))"
| "get_prop JNull k = Inl (TypeError (''Cannot read property '' @ k @ '' of null''))"
| "get_prop (JObj kvs) k = (case map_of kvs k of Some v \<Rightarrow> Inr v | None \<Rightarrow> Inr JUndefined)"
| "get_prop (JArr xs) k = (if k = ''length'' then Inr (JNum (int (length xs))) else Inr JUndefined)"
| "get_prop (JStr s) k = (if k = ''length'' then Inr (JNum (int (length s))) else Inr JUndefined)"
| "get_prop _ k = Inr JUndefined"

text \<open>JavaScript truthiness, as used by \<open>!x\<close>, \<open>x || y\<close> and option flags.\<close>

fun truthy :: "jsval \<Rightarrow> bool" where
  "truthy JUndefined = False"
| "truthy JNull = False"
| "truthy (JBool b) = b"
| "truthy (JNum n) = (n \<noteq> 0)"
| "truthy (JStr s) = (s \<noteq> [])"
| "truthy _ = True"

text \<open>
  \<open>Object.prototype.hasOwnProperty\<close> applied to an object with the own properties
  \<open>ob\<close>, and \<open>Object.keys(obj)\<close> on a plain object.
\<close>

definition hasOwnProperty :: "obj \<Rightarrow> string \<Rightarrow> bool" where
  "hasOwnProperty ob k = (map_of ob k \<noteq> None)"

definition Object_keys :: "obj \<Rightarrow> string list" where
  "Object_keys ob = map fst ob"

text \<open>\<open>obj[field]\<close> on a plain object.\<close>

definition obj_get :: "obj \<Rightarrow> string \<Rightarrow> jsval" where
  "obj_get ob k = (case map_of ob k of Some v \<Rightarrow> v | None \<Rightarrow> JUndefined)"

text \<open>
  The expression \<open>q.keys.length\<close>. On an array \<open>q.keys\<close> is the method
  \<open>Array.prototype.keys\<close>, a function without declared parameters, whose \<open>length\<close>
  is 0; on every other value it is a property read.
\<close>

definition and_then :: "thrown + 'a \<Rightarrow> ('a \<Rightarrow> thrown + 'b) \<Rightarrow> thrown + 'b" where
  "and_then x f = (case x of Inl e \<Rightarrow> Inl e | Inr v \<Rightarrow> f v)"

definition keys_length :: "jsval \<Rightarrow> thrown + jsval" where
  "keys_length q =
     (case q of
        JArr xs \<Rightarrow> Inr (JNum 0)
      | _ \<Rightarrow> and_then (get_prop q ''keys'') (\<lambda>ks. get_prop ks ''length''))"

text \<open>
  What the first argument of \<open>existsOR\<close> can be: \<open>null\<close> or \<open>undefined\<close>, an
  object that inherits from \<open>Object.prototype\<close>, or an object without prototype
  (\<open>Object.create(null)\<close>), the last two with their own properties.
  The call \<open>obj.hasOwnProperty(field)\<close> looks \<open>hasOwnProperty\<close> up on the object
  first: an own property of that name shadows the inherited method and, being data, is
  not callable.
\<close>

datatype receiver = Nullish | Plain obj | Bare obj

fun own_properties :: "receiver \<Rightarrow> obj" where
  "own_properties Nullish = []"
| "own_properties (Plain ob) = ob"
| "own_properties (Bare ob) = ob"

fun hasOwnProperty_call :: "receiver \<Rightarrow> string \<Rightarrow> thrown + bool" where
  "hasOwnProperty_call Nullish field =
     Inl (TypeError ''Cannot read property hasOwnProperty of null'')"
| "hasOwnProperty_call (Plain ob) field =
     (case map_of ob ''hasOwnProperty'' of
        None \<Rightarrow> Inr (hasOwnProperty ob field)
      | Some v \<Rightarrow> Inl (TypeError ''obj.hasOwnProperty is not a function''))"
| "hasOwnProperty_call (Bare ob) field =
     Inl (TypeError ''obj.hasOwnProperty is not a function'')"

section \<open>Query model and paged result\<close>

text \<open>
  \<open>APIQuery\<close> as the repository reads it: \<open>query\<close> is a filter object (or an aggregation
  pipeline for the aggregate operations), \<open>qfields\<close> (the field \<open>fields\<close>) the projection object; \<open>search\<close>,
  \<open>limit\<close>, \<open>next\<close> and \<open>previous\<close> are passed through to the paging library unread.
\<close>

record APIQuery =
  query :: jsval
  qfields :: obj
  search :: jsval
  limit :: jsval
  "next" :: jsval
  previous :: jsval

record MongoPagedResult =
  results :: "obj list"
  res_previous :: jsval
  res_next :: jsval
  hasPrevious :: bool
  hasNext :: bool

section \<open>External collaborators\<close>

text \<open>
  The store driver (\<open>mongodb\<close>), the paging library (\<open>mongo-cursor-pagination\<close>) and the
  database client are not part of the repository layer. They are parameters of the model:
  every operation takes the collection handle (the collection's name) and the store state
  \<open>'s\<close> and either throws or returns; writing operations also return the new store.
  \<open>find_toArray\<close> stands for \<open>collection.find(filter, options).limit(n).toArray()\<close>, and
  \<open>aggregate_toArray\<close> for \<open>collection.aggregate(pipeline).toArray()\<close>.
\<close>

record 's driver =
  insertOne :: "string \<Rightarrow> jsval \<Rightarrow> 's \<Rightarrow> (thrown + jsval) \<times> 's"
  insertMany :: "string \<Rightarrow> jsval list \<Rightarrow> 's \<Rightarrow> (thrown + jsval) \<times> 's"
  findOneAndUpdate :: "string \<Rightarrow> jsval \<Rightarrow> obj \<Rightarrow> obj \<Rightarrow> 's \<Rightarrow> (thrown + jsval) \<times> 's"
  deleteOne :: "string \<Rightarrow> jsval \<Rightarrow> 's \<Rightarrow> (thrown + jsval) \<times> 's"
  countDocuments :: "string \<Rightarrow> jsval \<Rightarrow> 's \<Rightarrow> thrown + jsval"
  aggregate_toArray :: "string \<Rightarrow> jsval \<Rightarrow> 's \<Rightarrow> thrown + jsval"
  find_toArray :: "string \<Rightarrow> jsval \<Rightarrow> obj \<Rightarrow> nat \<Rightarrow> 's \<Rightarrow> thrown + obj list"
  distinct_values :: "string \<Rightarrow> string \<Rightarrow> 's \<Rightarrow> thrown + jsval"

record 's pager =
  paging_find :: "string \<Rightarrow> obj \<Rightarrow> 's \<Rightarrow> thrown + MongoPagedResult"
  paging_search :: "string \<Rightarrow> jsval \<Rightarrow> obj \<Rightarrow> 's \<Rightarrow> thrown + MongoPagedResult"
  paging_aggregate :: "string \<Rightarrow> obj \<Rightarrow> 's \<Rightarrow> thrown + MongoPagedResult"

text \<open>
  \<open>getConnection\<close> is \<open>DBClient.getConnection()\<close>: it resolves or rejects with the
  client's transport error. \<open>client_db\<close> tells whether \<open>client.db\<close> is set.
\<close>

record 's env =
  getConnection :: "'s \<Rightarrow> thrown + unit"
  client_db :: bool
  db :: "'s driver"
  MongoPaging :: "'s pager"

section \<open>BaseRepository\<close>

text \<open>
  A repository object: its collection name, the lazily cached collection handle
  (\<open>this.collection\<close>), and the two pagination getters. \<open>None\<close> for a getter means that the
  class does not override it, so the getter of \<open>BaseRepository\<close> runs.
\<close>

record repo =
  collectionName :: string
  collection :: "string option"
  paginatedField_override :: "string option"
  paginatedAscending_override :: "bool option"

definition paginatedField :: "repo \<Rightarrow> thrown + string" where
  "paginatedField r =
     (case paginatedField_override r of
        None \<Rightarrow> Inl (DeveloperError ''paginatedField getter must be overridden!'')
      | Some f \<Rightarrow> Inr f)"

definition paginatedAscending :: "repo \<Rightarrow> thrown + bool" where
  "paginatedAscending r =
     (case paginatedAscending_override r of
        None \<Rightarrow> Inl (DeveloperError ''paginatedAscending getter must be overridden!'')
      | Some a \<Rightarrow> Inr a)"

definition timestampField :: "repo \<Rightarrow> thrown + string" where
  "timestampField r = paginatedField r"

definition getCollection :: "'s env \<Rightarrow> repo \<Rightarrow> 's \<Rightarrow> (thrown + string) \<times> repo" where
  "getCollection E r s =
     (case collection r of
        Some h \<Rightarrow> (Inr h, r)
      | None \<Rightarrow>
          (case getConnection E s of
             Inl e \<Rightarrow> (Inl e, r)
           | Inr _ \<Rightarrow> (Inr (collectionName r), r\<lparr>collection := Some (collectionName r)\<rparr>)))"

text \<open>
  The handler every method of \<open>BaseRepository\<close> puts around its store call:
  \<open>catch (err) { this.logger.captureError(err); throw new RepositoryError(err); }\<close>.
  Logging has no effect on results and is left out, except that the template strings of
  \<open>logger.debug\<close> read the pagination getters, which can throw.
\<close>

definition rewrap :: "thrown + 'a \<Rightarrow> thrown + 'a" where
  "rewrap x = (case x of Inl err \<Rightarrow> Inl (RepositoryError (Cause err)) | Inr v \<Rightarrow> Inr v)"

definition create :: "'s env \<Rightarrow> jsval \<Rightarrow> repo \<Rightarrow> 's \<Rightarrow> (thrown + jsval) \<times> repo \<times> 's" where
  "create E item r s =
     (case getCollection E r s of
        (Inl e, r') \<Rightarrow> (Inl e, r', s)
      | (Inr h, r') \<Rightarrow>
          (case insertOne (db E) h item s of (x, s') \<Rightarrow> (rewrap x, r', s')))"

definition createBulk :: "'s env \<Rightarrow> jsval list \<Rightarrow> repo \<Rightarrow> 's \<Rightarrow> (thrown + jsval) \<times> repo \<times> 's" where
  "createBulk E item r s =
     (case getCollection E r s of
        (Inl e, r') \<Rightarrow> (Inl e, r', s)
      | (Inr h, r') \<Rightarrow>
          (case insertMany (db E) h item s of
             (x, s') \<Rightarrow>
               (rewrap (and_then x (\<lambda>result.
                    and_then (get_prop result ''result'') (\<lambda>rr. get_prop rr ''n''))),
                r', s')))"

definition update_options :: "bool \<Rightarrow> obj" where
  "update_options cr = [(''returnOriginal'', JBool False), (''upsert'', JBool cr)]"

definition update :: "'s env \<Rightarrow> APIQuery \<Rightarrow> jsval \<Rightarrow> bool \<Rightarrow> repo \<Rightarrow> 's \<Rightarrow> (thrown + jsval) \<times> repo \<times> 's" where
  "update E apiQuery item cr r s =
     (case getCollection E r s of
        (Inl e, r') \<Rightarrow> (Inl e, r', s)
      | (Inr h, r') \<Rightarrow>
          (case findOneAndUpdate (db E) h (query apiQuery) [(''$set'', item)] (update_options cr) s of
             (x, s') \<Rightarrow> (rewrap (and_then x (\<lambda>result. get_prop result ''value'')), r', s')))"

definition deleteOne_repo :: "'s env \<Rightarrow> APIQuery \<Rightarrow> repo \<Rightarrow> 's \<Rightarrow> (thrown + jsval) \<times> repo \<times> 's" where
  "deleteOne_repo E apiQuery r s =
     (case getCollection E r s of
        (Inl e, r') \<Rightarrow> (Inl e, r', s)
      | (Inr h, r') \<Rightarrow>
          (case deleteOne (db E) h (query apiQuery) s of (x, s') \<Rightarrow> (rewrap x, r', s')))"

definition count_repo :: "'s env \<Rightarrow> jsval \<Rightarrow> repo \<Rightarrow> 's \<Rightarrow> (thrown + jsval) \<times> repo \<times> 's" where
  "count_repo E q r s =
     (case getCollection E r s of
        (Inl e, r') \<Rightarrow> (Inl e, r', s)
      | (Inr h, r') \<Rightarrow> (rewrap (countDocuments (db E) h q s), r', s))"

definition aggregate :: "'s env \<Rightarrow> APIQuery \<Rightarrow> repo \<Rightarrow> 's \<Rightarrow> (thrown + jsval) \<times> repo \<times> 's" where
  "aggregate E apiQuery r s =
     (case getCollection E r s of
        (Inl e, r') \<Rightarrow> (Inl e, r', s)
      | (Inr h, r') \<Rightarrow> (rewrap (aggregate_toArray (db E) h (query apiQuery) s), r', s))"

definition distinct_repo :: "'s env \<Rightarrow> string \<Rightarrow> repo \<Rightarrow> 's \<Rightarrow> (thrown + jsval) \<times> repo \<times> 's" where
  "distinct_repo E field r s =
     (case getCollection E r s of
        (Inl e, r') \<Rightarrow> (Inl e, r', s)
      | (Inr h, r') \<Rightarrow> (rewrap (distinct_values (db E) h field s), r', s))"

text \<open>The parameter objects handed to the paging library, key by key as the source writes them.\<close>

definition aggregatePaging_params :: "APIQuery \<Rightarrow> string \<Rightarrow> bool \<Rightarrow> obj" where
  "aggregatePaging_params apiQuery pf pa =
     [(''aggregation'', query apiQuery),
      (''paginatedField'', JStr pf),
      (''paginatedAscending'', JBool pa),
      (''limit'', limit apiQuery),
      (''next'', next apiQuery),
      (''previous'', previous apiQuery)]"

definition search_params :: "APIQuery \<Rightarrow> obj" where
  "search_params apiQuery =
     [(''query'', query apiQuery),
      (''fields'', JObj (qfields apiQuery)),
      (''limit'', limit apiQuery),
      (''next'', next apiQuery),
      (''previous'', previous apiQuery)]"

definition find_projection :: "APIQuery \<Rightarrow> jsval" where
  "find_projection apiQuery =
     (if length (Object_keys (qfields apiQuery)) \<noteq> 0
      then JObj [(''projection'', JObj (qfields apiQuery))]
      else JUndefined)"

definition find_params :: "APIQuery \<Rightarrow> string \<Rightarrow> bool \<Rightarrow> obj" where
  "find_params apiQuery pf pa =
     [(''query'', query apiQuery),
      (''fields'', find_projection apiQuery),
      (''paginatedField'', JStr pf),
      (''sortAscending'', JBool pa),
      (''limit'', limit apiQuery),
      (''next'', next apiQuery),
      (''previous'', previous apiQuery)]"

definition findOne_options :: "APIQuery \<Rightarrow> obj" where
  "findOne_options apiQuery = [(''projection'', JObj (qfields apiQuery))]"

definition aggregatePaging ::
  "'s env \<Rightarrow> APIQuery \<Rightarrow> repo \<Rightarrow> 's \<Rightarrow> (thrown + MongoPagedResult) \<times> repo \<times> 's" where
  "aggregatePaging E apiQuery r s =
     (case getCollection E r s of
        (Inl e, r') \<Rightarrow> (Inl e, r', s)
      | (Inr h, r') \<Rightarrow>
          (case paginatedField r' of
             Inl e \<Rightarrow> (Inl e, r', s)
           | Inr pf \<Rightarrow>
               (case paginatedAscending r' of
                  Inl e \<Rightarrow> (Inl e, r', s)
                | Inr pa \<Rightarrow>
                    (rewrap (paging_aggregate (MongoPaging E) h
                               (aggregatePaging_params apiQuery pf pa) s), r', s))))"

text \<open>
  \<open>exists\<close> tests \<open>!apiQuery.query.keys.length\<close> before its \<open>try\<close> block: the
  expression \<open>keys_length\<close> on the query value, then a truthiness test.
\<close>

definition exists :: "'s env \<Rightarrow> APIQuery \<Rightarrow> repo \<Rightarrow> 's \<Rightarrow> (thrown + bool) \<times> repo \<times> 's" where
  "exists E apiQuery r s =
     (case getCollection E r s of
        (Inl e, r') \<Rightarrow> (Inl e, r', s)
      | (Inr h, r') \<Rightarrow>
          (case keys_length (query apiQuery) of
             Inl e \<Rightarrow> (Inl e, r', s)
           | Inr len \<Rightarrow>
               if \<not> truthy len
               then (Inl (RepositoryError (Reason ''Invalid query for exists'')), r', s)
               else (rewrap (and_then (find_toArray (db E) h (query apiQuery) [(''_id'', JNum 1)] 1 s)
                               (\<lambda>result. Inr (length result > 0))), r', s)))"

text \<open>
  \<open>existsOR(obj, ...fields)\<close>: \<open>_.reduce\<close> over the listed fields is a left fold
  that stops at the first call of \<open>obj.hasOwnProperty\<close> that throws; it runs before
  the \<open>try\<close> block. \<open>obj[field]\<close> is read only for an own property.
\<close>

fun existsOR_reduce :: "receiver \<Rightarrow> string list \<Rightarrow> obj list \<Rightarrow> thrown + obj list" where
  "existsOR_reduce ob [] rv = Inr rv"
| "existsOR_reduce ob (field # flds) rv =
     (case hasOwnProperty_call ob field of
        Inl e \<Rightarrow> Inl e
      | Inr present \<Rightarrow>
          existsOR_reduce ob flds
            (if present then rv @ [ [(field, obj_get (own_properties ob) field)] ] else rv))"

definition existsOR ::
  "'s env \<Rightarrow> receiver \<Rightarrow> string list \<Rightarrow> repo \<Rightarrow> 's \<Rightarrow> (thrown + bool) \<times> repo \<times> 's" where
  "existsOR E ob flds r s =
     (case getCollection E r s of
        (Inl e, r') \<Rightarrow> (Inl e, r', s)
      | (Inr h, r') \<Rightarrow>
          (case existsOR_reduce ob flds [] of
             Inl e \<Rightarrow> (Inl e, r', s)
           | Inr qor \<Rightarrow>
               if length qor = 0
               then (Inl (RepositoryError (Reason ''Invalid query for existsOR'')), r', s)
               else (rewrap (and_then
                               (find_toArray (db E) h (JObj [(''$or'', JArr (map JObj qor))])
                                  [(''_id'', JNum 1)] 1 s)
                               (\<lambda>result. Inr (length result > 0))), r', s)))"

definition search_repo ::
  "'s env \<Rightarrow> APIQuery \<Rightarrow> repo \<Rightarrow> 's \<Rightarrow> (thrown + MongoPagedResult) \<times> repo \<times> 's" where
  "search_repo E apiQuery r s =
     (case getCollection E r s of
        (Inl e, r') \<Rightarrow> (Inl e, r', s)
      | (Inr h, r') \<Rightarrow>
          (case paginatedField r' of
             Inl e \<Rightarrow> (Inl e, r', s)
           | Inr pf \<Rightarrow>
               (case paginatedAscending r' of
                  Inl e \<Rightarrow> (Inl e, r', s)
                | Inr pa \<Rightarrow>
                    (rewrap (paging_search (MongoPaging E) h (search apiQuery)
                               (search_params apiQuery) s), r', s))))"

definition find_repo ::
  "'s env \<Rightarrow> APIQuery \<Rightarrow> repo \<Rightarrow> 's \<Rightarrow> (thrown + MongoPagedResult) \<times> repo \<times> 's" where
  "find_repo E apiQuery r s =
     (case getCollection E r s of
        (Inl e, r') \<Rightarrow> (Inl e, r', s)
      | (Inr h, r') \<Rightarrow>
          (case paginatedField r' of
             Inl e \<Rightarrow> (Inl e, r', s)
           | Inr pf \<Rightarrow>
               (case paginatedAscending r' of
                  Inl e \<Rightarrow> (Inl e, r', s)
                | Inr pa \<Rightarrow>
                    (rewrap (paging_find (MongoPaging E) h (find_params apiQuery pf pa) s),
                     r', s))))"

definition findOne :: "'s env \<Rightarrow> APIQuery \<Rightarrow> repo \<Rightarrow> 's \<Rightarrow> (thrown + jsval) \<times> repo \<times> 's" where
  "findOne E apiQuery r s =
     (case getCollection E r s of
        (Inl e, r') \<Rightarrow> (Inl e, r', s)
      | (Inr h, r') \<Rightarrow>
          (rewrap (and_then (find_toArray (db E) h (query apiQuery) (findOne_options apiQuery) 1 s)
                     (\<lambda>result. case result of [] \<Rightarrow> Inr JUndefined | d # _ \<Rightarrow> Inr (JObj d))),
           r', s))"

definition findOneOrCreate_update :: "int \<Rightarrow> string \<Rightarrow> obj" where
  "findOneOrCreate_update now createUser =
     [(''$setOnInsert'', JObj [(''createdOn'', JNum now), (''createdBy'', JStr createUser)])]"

definition findOneOrCreate_options :: obj where
  "findOneOrCreate_options = [(''upsert'', JBool True), (''returnOriginal'', JBool False)]"

text \<open>\<open>now\<close> is the value \<open>getTimestamp()\<close> returns at the call.\<close>

definition findOneOrCreate ::
  "'s env \<Rightarrow> int \<Rightarrow> APIQuery \<Rightarrow> string \<Rightarrow> repo \<Rightarrow> 's \<Rightarrow> (thrown + jsval) \<times> repo \<times> 's" where
  "findOneOrCreate E now apiQuery createUser r s =
     (case getCollection E r s of
        (Inl e, r') \<Rightarrow> (Inl e, r', s)
      | (Inr h, r') \<Rightarrow>
          (case findOneAndUpdate (db E) h (query apiQuery)
                  (findOneOrCreate_update now createUser) findOneOrCreate_options s of
             (x, s') \<Rightarrow> (rewrap (and_then x (\<lambda>result. get_prop result ''value'')), r', s')))"

section \<open>OrganizationRepository\<close>

definition OrganizationRepository :: repo where
  "OrganizationRepository =
     \<lparr>collectionName = ''organization'', collection = None,
      paginatedField_override = Some ''createdOn'',
      paginatedAscending_override = Some False\<rparr>"

definition counter_filter :: jsval where
  "counter_filter = JObj [(''indentity'', JStr ''organization_index'')]"

definition counter_update :: obj where
  "counter_update = [(''$inc'', JObj [(''count'', JNum 9)])]"

definition counter_options :: obj where
  "counter_options = [(''upsert'', JBool True), (''returnOriginal'', JBool False)]"

text \<open>
  \<open>getNewOrganizationIdentifier\<close> goes through \<open>this.client.db\<close> directly and has no
  \<open>try\<close> block.
\<close>

definition getNewOrganizationIdentifier :: "'s env \<Rightarrow> 's \<Rightarrow> (thrown + jsval) \<times> 's" where
  "getNewOrganizationIdentifier E s =
     (if \<not> client_db E
      then (Inl (TypeError ''Cannot read property collection of undefined''), s)
      else
        (case findOneAndUpdate (db E) ''identityCounter'' counter_filter counter_update
                counter_options s of
           (Inl e, s') \<Rightarrow> (Inl e, s')
         | (Inr result, s') \<Rightarrow>
             (and_then (get_prop result ''value'') (\<lambda>v. get_prop v ''count''), s')))"

section \<open>A reference document store\<close>

text \<open>
  An executable in-memory store that follows the documented behaviour of the driver
  calls the repository makes. It instantiates the \<open>driver\<close> parameter where a
  property depends on what the store does with a call (upsert, \<open>$set\<close>,
  \<open>$setOnInsert\<close>, \<open>$inc\<close>, \<open>returnOriginal: false\<close>). Its filters are
  equality clauses on scalar values and \<open>$or\<close> lists of such clauses, and its update
  operators take scalar values; field names are plain (not empty, no leading \<open>$\<close>,
  no dot, so no path into a nested document). Any other filter or update is rejected,
  so the reference never answers a call it does not interpret. As the store does, it
  rejects an update operator without fields and an update that would change the
  \<open>_id\<close> of a document. Equality on a stored field is equality of scalars, which is
  what the store does on documents whose fields are scalars (\<open>flat_collection\<close>).
  Unique indices other than \<open>_id\<close> are not modelled.
\<close>

record mstate =
  colls :: "string \<Rightarrow> obj list"
  next_oid :: nat

fun scalar :: "jsval \<Rightarrow> bool" where
  "scalar (JBool _) = True"
| "scalar (JNum _) = True"
| "scalar (JStr _) = True"
| "scalar (JId _) = True"
| "scalar _ = False"

definition plain_key :: "string \<Rightarrow> bool" where
  "plain_key k = (k \<noteq> [] \<and> take 1 k \<noteq> ''$'' \<and> CHR ''.'' \<notin> set k)"

definition eq_clause :: "string \<times> jsval \<Rightarrow> bool" where
  "eq_clause c = (plain_key (fst c) \<and> scalar (snd c))"

definition flat_doc :: "obj \<Rightarrow> bool" where
  "flat_doc d = list_all (\<lambda>c. scalar (snd c)) d"

definition flat_collection :: "mstate \<Rightarrow> string \<Rightarrow> bool" where
  "flat_collection s h = list_all flat_doc (colls s h)"

definition eq_object :: "jsval \<Rightarrow> bool" where
  "eq_object c = (case c of JObj eqs \<Rightarrow> list_all eq_clause eqs | _ \<Rightarrow> False)"

definition supported_clause :: "string \<times> jsval \<Rightarrow> bool" where
  "supported_clause c =
     (if fst c = ''$or''
      then (case snd c of JArr cs \<Rightarrow> cs \<noteq> [] \<and> list_all eq_object cs | _ \<Rightarrow> False)
      else eq_clause c)"

definition supported :: "jsval \<Rightarrow> bool" where
  "supported q = (case q of JObj cs \<Rightarrow> list_all supported_clause cs | _ \<Rightarrow> False)"

definition eq_matches :: "obj \<Rightarrow> obj \<Rightarrow> bool" where
  "eq_matches eqs d = list_all (\<lambda>c. map_of d (fst c) = Some (snd c)) eqs"

definition clause_matches :: "obj \<Rightarrow> string \<times> jsval \<Rightarrow> bool" where
  "clause_matches d c =
     (if fst c = ''$or''
      then (case snd c of
              JArr cs \<Rightarrow> list_ex (\<lambda>x. case x of JObj eqs \<Rightarrow> eq_matches eqs d | _ \<Rightarrow> False) cs
            | _ \<Rightarrow> False)
      else map_of d (fst c) = Some (snd c))"

definition matches :: "jsval \<Rightarrow> obj \<Rightarrow> bool" where
  "matches q d = (case q of JObj cs \<Rightarrow> list_all (clause_matches d) cs | _ \<Rightarrow> False)"

fun set_field :: "string \<Rightarrow> jsval \<Rightarrow> obj \<Rightarrow> obj" where
  "set_field k v [] = [(k, v)]"
| "set_field k v (c # d) = (if fst c = k then (k, v) # d else c # set_field k v d)"

fun set_fields :: "obj \<Rightarrow> obj \<Rightarrow> obj" where
  "set_fields [] d = d"
| "set_fields (c # fs) d = set_fields fs (set_field (fst c) (snd c) d)"

fun inc_fields :: "obj \<Rightarrow> obj \<Rightarrow> thrown + obj" where
  "inc_fields [] d = Inr d"
| "inc_fields (c # fs) d =
     (case snd c of
        JNum n \<Rightarrow>
          (case map_of d (fst c) of
             None \<Rightarrow> inc_fields fs (set_field (fst c) (JNum n) d)
           | Some (JNum m) \<Rightarrow> inc_fields fs (set_field (fst c) (JNum (m + n)) d)
           | Some _ \<Rightarrow> Inl (StoreFailure ''Cannot apply $inc to a value of non-numeric type''))
      | _ \<Rightarrow> Inl (StoreFailure ''Cannot increment with non-numeric argument''))"

text \<open>
  An update that names \<open>_id\<close> is accepted only if it leaves the \<open>_id\<close> of the
  document as it is (or the document, a seed of an upsert, has none yet).
\<close>

definition keeps_id :: "obj \<Rightarrow> obj \<Rightarrow> bool" where
  "keeps_id fs d =
     list_all (\<lambda>c. fst c \<noteq> ''_id'' \<or> map_of d ''_id'' = None \<or> map_of d ''_id'' = Some (snd c)) fs"

definition set_checked :: "obj \<Rightarrow> obj \<Rightarrow> thrown + obj" where
  "set_checked fs d =
     (if keeps_id fs d then Inr (set_fields fs d)
      else Inl (StoreFailure ''Performing an update on the path _id would modify the immutable field _id''))"

fun apply_modifiers :: "bool \<Rightarrow> obj \<Rightarrow> obj \<Rightarrow> thrown + obj" where
  "apply_modifiers ins [] d = Inr d"
| "apply_modifiers ins (m # ms) d =
     (case snd m of
        JObj fs \<Rightarrow>
          if fs = [] then Inl (StoreFailure ''update operator is empty'')
          else if \<not> list_all eq_clause fs then Inl (StoreFailure ''unsupported update'')
          else if fst m = ''$set''
            then (case set_checked fs d of
                    Inl e \<Rightarrow> Inl e
                  | Inr d' \<Rightarrow> apply_modifiers ins ms d')
          else if fst m = ''$setOnInsert''
            then (if ins
                  then (case set_checked fs d of
                          Inl e \<Rightarrow> Inl e
                        | Inr d' \<Rightarrow> apply_modifiers ins ms d')
                  else apply_modifiers ins ms d)
          else if fst m = ''$inc''
            then (if list_ex (\<lambda>c. fst c = ''_id'') fs
                  then Inl (StoreFailure ''unsupported update'')
                  else (case inc_fields fs d of
                          Inl e \<Rightarrow> Inl e
                        | Inr d' \<Rightarrow> apply_modifiers ins ms d'))
          else Inl (StoreFailure ''Unknown modifier'')
      | _ \<Rightarrow> Inl (StoreFailure ''Modifiers operate on fields but we found another type''))"

definition seed_of :: "jsval \<Rightarrow> obj" where
  "seed_of q = (case q of JObj cs \<Rightarrow> filter eq_clause cs | _ \<Rightarrow> [])"

definition with_id :: "nat \<Rightarrow> obj \<Rightarrow> obj" where
  "with_id n d = (if map_of d ''_id'' = None then (''_id'', JId n) # d else d)"

definition has_id :: "jsval \<Rightarrow> obj list \<Rightarrow> bool" where
  "has_id i ds = list_ex (\<lambda>d. map_of d ''_id'' = Some i) ds"

definition fau_result :: "jsval \<Rightarrow> jsval" where
  "fau_result v = JObj [(''value'', v), (''ok'', JNum 1)]"

definition returnOriginal_of :: "obj \<Rightarrow> bool" where
  "returnOriginal_of opts = (case map_of opts ''returnOriginal'' of None \<Rightarrow> True | Some v \<Rightarrow> truthy v)"

definition put_coll :: "string \<Rightarrow> obj list \<Rightarrow> mstate \<Rightarrow> mstate" where
  "put_coll h ds s = s\<lparr>colls := (colls s)(h := ds)\<rparr>"

definition ref_findOneAndUpdate ::
  "string \<Rightarrow> jsval \<Rightarrow> obj \<Rightarrow> obj \<Rightarrow> mstate \<Rightarrow> (thrown + jsval) \<times> mstate" where
  "ref_findOneAndUpdate h q upd opts s =
     (if \<not> supported q then (Inl (StoreFailure ''unsupported filter''), s)
      else
        (case dropWhile (\<lambda>d. \<not> matches q d) (colls s h) of
           d # post \<Rightarrow>
             (case apply_modifiers False upd d of
                Inl e \<Rightarrow> (Inl e, s)
              | Inr d' \<Rightarrow>
                  (Inr (fau_result (JObj (if returnOriginal_of opts then d else d'))),
                   put_coll h (takeWhile (\<lambda>d. \<not> matches q d) (colls s h) @ d' # post) s))
         | [] \<Rightarrow>
             if truthy (obj_get opts ''upsert'')
             then
               (case apply_modifiers True upd (seed_of q) of
                  Inl e \<Rightarrow> (Inl e, s)
                | Inr d' \<Rightarrow>
                    (Inr (fau_result (if returnOriginal_of opts then JNull
                                      else JObj (with_id (next_oid s) d'))),
                     (put_coll h (colls s h @ [with_id (next_oid s) d']) s)
                       \<lparr>next_oid := Suc (next_oid s)\<rparr>))
             else (Inr (fau_result JNull), s)))"

definition write_result :: "nat \<Rightarrow> jsval" where
  "write_result n = JObj [(''result'', JObj [(''ok'', JNum 1), (''n'', JNum (int n))])]"

definition ref_insertOne :: "string \<Rightarrow> jsval \<Rightarrow> mstate \<Rightarrow> (thrown + jsval) \<times> mstate" where
  "ref_insertOne h item s =
     (case item of
        JObj d \<Rightarrow>
          (let d' = with_id (next_oid s) d in
           if \<not> list_all eq_clause d then (Inl (StoreFailure ''unsupported document''), s)
           else if has_id (obj_get d' ''_id'') (colls s h)
           then (Inl (StoreFailure ''E11000 duplicate key error''), s)
           else (Inr (write_result 1),
                 (put_coll h (colls s h @ [d']) s)\<lparr>next_oid := Suc (next_oid s)\<rparr>))
      | _ \<Rightarrow> (Inl (StoreFailure ''document must be an object''), s))"

fun insert_all :: "string \<Rightarrow> jsval list \<Rightarrow> mstate \<Rightarrow> (thrown + unit) \<times> mstate" where
  "insert_all h [] s = (Inr (), s)"
| "insert_all h (item # items) s =
     (case ref_insertOne h item s of
        (Inl e, s') \<Rightarrow> (Inl e, s')
      | (Inr _, s') \<Rightarrow> insert_all h items s')"

definition ref_insertMany :: "string \<Rightarrow> jsval list \<Rightarrow> mstate \<Rightarrow> (thrown + jsval) \<times> mstate" where
  "ref_insertMany h items s =
     (if items = [] then (Inl (StoreFailure ''Invalid Operation, no operations specified''), s)
      else
        (case insert_all h items s of
           (Inl e, s') \<Rightarrow> (Inl e, s')
         | (Inr _, s') \<Rightarrow> (Inr (write_result (length items)), s')))"

definition ref_deleteOne :: "string \<Rightarrow> jsval \<Rightarrow> mstate \<Rightarrow> (thrown + jsval) \<times> mstate" where
  "ref_deleteOne h q s =
     (if \<not> supported q then (Inl (StoreFailure ''unsupported filter''), s)
      else
        (case dropWhile (\<lambda>d. \<not> matches q d) (colls s h) of
           d # post \<Rightarrow>
             (Inr (write_result 1),
              put_coll h (takeWhile (\<lambda>d. \<not> matches q d) (colls s h) @ post) s)
         | [] \<Rightarrow> (Inr (write_result 0), s)))"

definition ref_countDocuments :: "string \<Rightarrow> jsval \<Rightarrow> mstate \<Rightarrow> thrown + jsval" where
  "ref_countDocuments h q s =
     (if \<not> supported q then Inl (StoreFailure ''unsupported filter'')
      else Inr (JNum (int (length (filter (matches q) (colls s h))))))"

definition ref_aggregate_toArray :: "string \<Rightarrow> jsval \<Rightarrow> mstate \<Rightarrow> thrown + jsval" where
  "ref_aggregate_toArray h pipeline s =
     (case pipeline of
        JArr [] \<Rightarrow> Inr (JArr (map JObj (colls s h)))
      | _ \<Rightarrow> Inl (StoreFailure ''unsupported pipeline''))"

definition project :: "obj \<Rightarrow> obj \<Rightarrow> obj" where
  "project opts d =
     (case map_of opts ''projection'' of
        Some (JObj p) \<Rightarrow>
          if p = [] then d
          else filter (\<lambda>c. fst c = ''_id'' \<or> truthy (obj_get p (fst c))) d
      | _ \<Rightarrow> d)"

definition ref_find_toArray :: "string \<Rightarrow> jsval \<Rightarrow> obj \<Rightarrow> nat \<Rightarrow> mstate \<Rightarrow> thrown + obj list" where
  "ref_find_toArray h q opts n s =
     (if \<not> supported q then Inl (StoreFailure ''unsupported filter'')
      else
        (let found = map (project opts) (filter (matches q) (colls s h))
         in Inr (if n = 0 then found else take n found)))"

definition ref_distinct :: "string \<Rightarrow> string \<Rightarrow> mstate \<Rightarrow> thrown + jsval" where
  "ref_distinct h field s =
     Inr (JArr (remdups (map (\<lambda>d. obj_get d field) (filter (\<lambda>d. hasOwnProperty d field) (colls s h)))))"

definition ref_driver :: "mstate driver" where
  "ref_driver =
     \<lparr>insertOne = ref_insertOne, insertMany = ref_insertMany,
      findOneAndUpdate = ref_findOneAndUpdate, deleteOne = ref_deleteOne,
      countDocuments = ref_countDocuments, aggregate_toArray = ref_aggregate_toArray,
      find_toArray = ref_find_toArray, distinct_values = ref_distinct\<rparr>"

section \<open>Ordering and a reference paging library\<close>

text \<open>
  The value a document carries under a paginated field. The field is a path: its dots
  lead into nested documents (\<open>content.idData.timestamp\<close>). A document without the
  field carries \<open>undefined\<close>; an array on the way is the value reached.
\<close>

fun split_path :: "string \<Rightarrow> string \<Rightarrow> string list" where
  "split_path acc [] = [rev acc]"
| "split_path acc (c # cs) =
     (if c = CHR ''.'' then rev acc # split_path [] cs else split_path (c # acc) cs)"

fun path_get :: "string list \<Rightarrow> jsval \<Rightarrow> jsval" where
  "path_get [] v = v"
| "path_get (k # ks) (JObj kvs) =
     (case map_of kvs k of None \<Rightarrow> JUndefined | Some v \<Rightarrow> path_get ks v)"
| "path_get (k # ks) (JArr xs) = JArr xs"
| "path_get (k # ks) v = JUndefined"

definition field_value :: "string \<Rightarrow> obj \<Rightarrow> jsval" where
  "field_value f d = path_get (split_path [] f) (JObj d)"

text \<open>
  The store's order of values: by kind first (missing and null, numbers, strings,
  documents, ObjectIds, booleans), then numbers by value, strings by their characters,
  ObjectIds by age, \<open>false\<close> before \<open>true\<close>. Two nested documents count as equal,
  and an array is left out of the order (the store ranks it by its elements), so that
  \<open>ordered_by\<close> asks nothing of a pair with an array.
\<close>

fun sort_code :: "jsval \<Rightarrow> nat \<times> int \<times> nat list" where
  "sort_code JUndefined = (0, 0, [])"
| "sort_code JNull = (0, 0, [])"
| "sort_code (JNum n) = (1, n, [])"
| "sort_code (JStr s) = (2, 0, map of_char s)"
| "sort_code (JObj kvs) = (3, 0, [])"
| "sort_code (JArr xs) = (4, 0, [])"
| "sort_code (JId n) = (5, int n, [])"
| "sort_code (JBool b) = (6, (if b then 1 else 0), [])"

fun is_array :: "jsval \<Rightarrow> bool" where
  "is_array (JArr xs) = True"
| "is_array v = False"

definition value_le :: "jsval \<Rightarrow> jsval \<Rightarrow> bool" where
  "value_le a b = (is_array a \<or> is_array b \<or> sort_code a \<le> sort_code b)"

definition ordered_by :: "string \<Rightarrow> bool \<Rightarrow> obj list \<Rightarrow> bool" where
  "ordered_by f asc ds =
     sorted_wrt (\<lambda>a b. if asc then value_le (field_value f a) (field_value f b)
                      else value_le (field_value f b) (field_value f a)) ds"

text \<open>
  What the repository relies on from \<open>MongoPaging.find\<close>: a page no longer than the
  \<open>limit\<close> parameter, sorted by the \<open>paginatedField\<close> parameter in the direction of the
  \<open>sortAscending\<close> parameter. For \<open>search\<close> and \<open>aggregate\<close> only the bound on the page
  length is stated.
\<close>

definition find_contract :: "'s pager \<Rightarrow> bool" where
  "find_contract P =
     (\<forall>h params s res L f a.
        paging_find P h params s = Inr res \<longrightarrow>
        map_of params ''limit'' = Some (JNum L) \<longrightarrow> 1 \<le> L \<longrightarrow>
        map_of params ''paginatedField'' = Some (JStr f) \<longrightarrow>
        map_of params ''sortAscending'' = Some (JBool a) \<longrightarrow>
          int (length (results res)) \<le> L \<and> ordered_by f a (results res))"

definition search_contract :: "'s pager \<Rightarrow> bool" where
  "search_contract P =
     (\<forall>h term params s res L.
        paging_search P h term params s = Inr res \<longrightarrow>
        map_of params ''limit'' = Some (JNum L) \<longrightarrow> 1 \<le> L \<longrightarrow>
          int (length (results res)) \<le> L)"

definition aggregate_contract :: "'s pager \<Rightarrow> bool" where
  "aggregate_contract P =
     (\<forall>h params s res L.
        paging_aggregate P h params s = Inr res \<longrightarrow>
        map_of params ''limit'' = Some (JNum L) \<longrightarrow> 1 \<le> L \<longrightarrow>
          int (length (results res)) \<le> L)"

text \<open>
  A reference paging library over the reference store: first pages only (a cursor token
  is rejected). \<open>dflt\<close> and \<open>mx\<close> are \<open>config.paginationDefault\<close> and
  \<open>config.paginationMax\<close>, which the constructor of \<open>BaseRepository\<close> installs.
  \<open>find\<close> and \<open>aggregate\<close> return whole documents and reject a \<open>fields\<close>
  parameter. \<open>search\<close> ranks a document by the number of its string fields equal to
  the term, sorts by that score and then by \<open>_id\<close>, both descending, and returns each
  hit projected to the requested fields, its \<open>_id\<close> and its \<open>score\<close>.
\<close>

definition page_limit :: "int \<Rightarrow> int \<Rightarrow> jsval \<Rightarrow> nat" where
  "page_limit dflt mx lim =
     (case lim of
        JNum n \<Rightarrow> nat (if n < 1 then 1 else if mx < n then mx else n)
      | _ \<Rightarrow> nat dflt)"

definition make_page :: "nat \<Rightarrow> obj list \<Rightarrow> MongoPagedResult" where
  "make_page n ds =
     \<lparr>results = take n ds, res_previous = JUndefined, res_next = JUndefined,
      hasPrevious = False, hasNext = (n < length ds)\<rparr>"

definition sort_docs :: "string \<Rightarrow> bool \<Rightarrow> obj list \<Rightarrow> obj list" where
  "sort_docs f asc ds =
     (let sorted_docs = sort_key (\<lambda>d. sort_code (field_value f d)) ds
      in if asc then sorted_docs else rev sorted_docs)"

definition has_cursor :: "obj \<Rightarrow> bool" where
  "has_cursor params = (truthy (obj_get params ''next'') \<or> truthy (obj_get params ''previous''))"

definition sort_field_of :: "obj \<Rightarrow> string" where
  "sort_field_of params = (case obj_get params ''paginatedField'' of JStr f \<Rightarrow> f | _ \<Rightarrow> ''_id'')"

definition ref_paging_find ::
  "int \<Rightarrow> int \<Rightarrow> string \<Rightarrow> obj \<Rightarrow> mstate \<Rightarrow> thrown + MongoPagedResult" where
  "ref_paging_find dflt mx h params s =
     (if has_cursor params then Inl (StoreFailure ''cursor tokens are not interpreted'')
      else if obj_get params ''fields'' \<noteq> JUndefined
        then Inl (StoreFailure ''unsupported projection'')
      else if \<not> supported (obj_get params ''query'') then Inl (StoreFailure ''unsupported filter'')
      else Inr (make_page (page_limit dflt mx (obj_get params ''limit''))
                  (sort_docs (sort_field_of params) (truthy (obj_get params ''sortAscending''))
                     (filter (matches (obj_get params ''query'')) (colls s h)))))"

definition ref_paging_aggregate ::
  "int \<Rightarrow> int \<Rightarrow> string \<Rightarrow> obj \<Rightarrow> mstate \<Rightarrow> thrown + MongoPagedResult" where
  "ref_paging_aggregate dflt mx h params s =
     (if has_cursor params then Inl (StoreFailure ''cursor tokens are not interpreted'')
      else if obj_get params ''fields'' \<noteq> JUndefined
        then Inl (StoreFailure ''unsupported projection'')
      else
        (case obj_get params ''aggregation'' of
           JArr [] \<Rightarrow>
             Inr (make_page (page_limit dflt mx (obj_get params ''limit''))
                    (sort_docs (sort_field_of params) (truthy (obj_get params ''sortAscending''))
                       (colls s h)))
         | _ \<Rightarrow> Inl (StoreFailure ''unsupported pipeline'')))"

definition text_score :: "string \<Rightarrow> obj \<Rightarrow> int" where
  "text_score t d = int (length (filter (\<lambda>c. snd c = JStr t) d))"

text \<open>
  The projection of \<open>search\<close>: inclusions of plain field names only, anything else is
  rejected.
\<close>

definition inclusion :: "string \<times> jsval \<Rightarrow> bool" where
  "inclusion c = (plain_key (fst c) \<and> (snd c = JNum 1 \<or> snd c = JBool True))"

definition search_hit :: "obj \<Rightarrow> string \<Rightarrow> obj \<Rightarrow> obj" where
  "search_hit flds t d =
     filter (\<lambda>c. fst c = ''_id'' \<or> map_of flds (fst c) \<noteq> None) d
       @ [(''score'', JNum (text_score t d))]"

definition ref_paging_search ::
  "int \<Rightarrow> int \<Rightarrow> string \<Rightarrow> jsval \<Rightarrow> obj \<Rightarrow> mstate \<Rightarrow> thrown + MongoPagedResult" where
  "ref_paging_search dflt mx h term params s =
     (if has_cursor params then Inl (StoreFailure ''cursor tokens are not interpreted'')
      else if \<not> supported (obj_get params ''query'') then Inl (StoreFailure ''unsupported filter'')
      else
        (case (term, obj_get params ''fields'') of
           (JStr t, JObj flds) \<Rightarrow>
             if \<not> list_all inclusion flds then Inl (StoreFailure ''unsupported projection'')
             else
               Inr (make_page (page_limit dflt mx (obj_get params ''limit''))
                      (map (search_hit flds t)
                         (rev (sort_key (\<lambda>d. text_score t d)
                            (sort_key (\<lambda>d. sort_code (field_value ''_id'' d))
                               (filter (\<lambda>d. matches (obj_get params ''query'') d \<and> 0 < text_score t d)
                                  (colls s h)))))))
         | _ \<Rightarrow> Inl (StoreFailure ''search string and projection expected'')))"

definition ref_pager :: "int \<Rightarrow> int \<Rightarrow> mstate pager" where
  "ref_pager dflt mx =
     \<lparr>paging_find = ref_paging_find dflt mx,
      paging_search = ref_paging_search dflt mx,
      paging_aggregate = ref_paging_aggregate dflt mx\<rparr>"

text \<open>The reference environment: a client that is connected, page sizes 50 by default and 100 at most.\<close>

definition ref_env :: "mstate env" where
  "ref_env =
     \<lparr>getConnection = (\<lambda>s. Inr ()), client_db = True, db = ref_driver,
      MongoPaging = ref_pager 50 100\<rparr>"

definition empty_store :: mstate where
  "empty_store = \<lparr>colls = (\<lambda>h. []), next_oid = 0\<rparr>"

section \<open>Auxiliary definitions for the statements\<close>

text \<open>The handle \<open>getCollection\<close> yields: the cached one, or the collection name on first use.\<close>

definition handle_of :: "repo \<Rightarrow> string" where
  "handle_of r = (case collection r of Some h \<Rightarrow> h | None \<Rightarrow> collectionName r)"

definition with_handle :: "repo \<Rightarrow> repo" where
  "with_handle r = (case collection r of Some h \<Rightarrow> r | None \<Rightarrow> r\<lparr>collection := Some (collectionName r)\<rparr>)"

text \<open>A driver on which every call throws \<open>e\<close>, and the reference environment running on it.\<close>

definition failing_driver :: "thrown \<Rightarrow> 's driver" where
  "failing_driver e =
     \<lparr>insertOne = (\<lambda>h item s. (Inl e, s)), insertMany = (\<lambda>h items s. (Inl e, s)),
      findOneAndUpdate = (\<lambda>h q upd opts s. (Inl e, s)), deleteOne = (\<lambda>h q s. (Inl e, s)),
      countDocuments = (\<lambda>h q s. Inl e), aggregate_toArray = (\<lambda>h q s. Inl e),
      find_toArray = (\<lambda>h q opts n s. Inl e), distinct_values = (\<lambda>h f s. Inl e)\<rparr>"

definition failing_env :: "thrown \<Rightarrow> mstate env" where
  "failing_env e = ref_env\<lparr>db := failing_driver e\<rparr>"

text \<open>Example inputs.\<close>

definition api_query :: "jsval \<Rightarrow> APIQuery" where
  "api_query q =
     \<lparr>query = q, qfields = [], search = JUndefined, limit = JNum 10,
      next = JUndefined, previous = JUndefined\<rparr>"

definition BaseRepository :: "string \<Rightarrow> repo" where
  "BaseRepository name =
     \<lparr>collectionName = name, collection = None,
      paginatedField_override = None, paginatedAscending_override = None\<rparr>"

definition event_store :: mstate where
  "event_store =
     \<lparr>colls = (\<lambda>h. if h = ''event'' then [ [(''_id'', JId 0), (''eventId'', JStr ''e1'')] ] else []),
      next_oid = 1\<rparr>"

definition EventRepository :: repo where
  "EventRepository =
     \<lparr>collectionName = ''event'', collection = None,
      paginatedField_override = Some ''content.idData.timestamp'',
      paginatedAscending_override = Some False\<rparr>"

text \<open>
  The value of the organization counter in a store (0 when the counter document or its
  \<open>count\<close> is absent), and the results of \<open>n\<close> sequential calls of
  \<open>getNewOrganizationIdentifier\<close> on the reference store.
\<close>

definition counter_of :: "mstate \<Rightarrow> int option" where
  "counter_of s =
     (case dropWhile (\<lambda>d. \<not> matches counter_filter d) (colls s ''identityCounter'') of
        [] \<Rightarrow> Some 0
      | d # _ \<Rightarrow>
          (case map_of d ''count'' of
             None \<Rightarrow> Some 0
           | Some (JNum c) \<Rightarrow> Some c
           | Some _ \<Rightarrow> None))"

fun mint_ids :: "nat \<Rightarrow> mstate \<Rightarrow> (thrown + jsval) list" where
  "mint_ids 0 s = []"
| "mint_ids (Suc n) s =
     (case getNewOrganizationIdentifier ref_env s of (x, s') \<Rightarrow> x # mint_ids n s')"

text \<open>
  Two organizations matching the search term \<open>acme\<close>, the older one on two fields,
  a search for them that asks for \<open>createdOn\<close>, and the two hits it returns.
\<close>

definition org_acme_old :: obj where
  "org_acme_old = [(''_id'', JId 1), (''createdOn'', JNum 100), (''title'', JStr ''acme''), (''owner'', JStr ''acme'')]"

definition org_acme_new :: obj where
  "org_acme_new = [(''_id'', JId 2), (''createdOn'', JNum 200), (''title'', JStr ''acme'')]"

definition org_store :: mstate where
  "org_store = \<lparr>colls = (\<lambda>h. if h = ''organization'' then [org_acme_old, org_acme_new] else []), next_oid = 3\<rparr>"

definition search_query :: APIQuery where
  "search_query =
     (api_query (JObj []))\<lparr>search := JStr ''acme'', qfields := [(''createdOn'', JNum 1)]\<rparr>"

definition acme_hit_old :: obj where
  "acme_hit_old = [(''_id'', JId 1), (''createdOn'', JNum 100), (''score'', JNum 2)]"

definition acme_hit_new :: obj where
  "acme_hit_new = [(''_id'', JId 2), (''createdOn'', JNum 200), (''score'', JNum 1)]"




section \<open>Obtaining the collection handle\<close>

lemma getCollection_cases:
  "getCollection E r s = (x, r') \<Longrightarrow>
     paginatedField_override r' = paginatedField_override r \<and>
     paginatedAscending_override r' = paginatedAscending_override r \<and>
     collectionName r' = collectionName r"
  by (auto simp: getCollection_def split: option.splits sum.splits)

lemma getCollection_ref [simp]:
  "getCollection ref_env r s = (Inr (handle_of r), with_handle r)"
  by (simp add: getCollection_def ref_env_def handle_of_def with_handle_def split: option.splits)

lemma getCollection_failing [simp]:
  "getCollection (failing_env e) r s = (Inr (handle_of r), with_handle r)"
  by (simp add: getCollection_def failing_env_def ref_env_def handle_of_def with_handle_def
      split: option.splits)

section \<open>Pagination configuration\<close>

text \<open>
  C5. A repository class that does not override \<open>paginatedField\<close> or
  \<open>paginatedAscending\<close> gets the getter of \<open>BaseRepository\<close>, which throws a
  DeveloperError instead of returning a default. Every paginated operation reads both
  getters for its log line right after obtaining the collection handle, so \<open>find\<close>,
  \<open>search\<close> and \<open>aggregatePaging\<close> end in a DeveloperError, which is never a
  RepositoryError.
\<close>

theorem missing_pagination_override_throws_DeveloperError:
  assumes miss: "paginatedField_override r = None \<or> paginatedAscending_override r = None"
    and coll: "fst (getCollection E r s) = Inr h"
  shows "(paginatedField_override r = None \<longrightarrow>
            paginatedField r = Inl (DeveloperError ''paginatedField getter must be overridden!''))
       \<and> (paginatedAscending_override r = None \<longrightarrow>
            paginatedAscending r =
              Inl (DeveloperError ''paginatedAscending getter must be overridden!''))
       \<and> (\<exists>m. fst (find_repo E q r s) = Inl (DeveloperError m))
       \<and> (\<exists>m. fst (search_repo E q r s) = Inl (DeveloperError m))
       \<and> (\<exists>m. fst (aggregatePaging E q r s) = Inl (DeveloperError m))
       \<and> (\<forall>m p. DeveloperError m \<noteq> RepositoryError p)"
proof -
  obtain x r' where g: "getCollection E r s = (x, r')" by (cases "getCollection E r s")
  with coll have x: "x = Inr h" by simp
  from getCollection_cases [OF g]
  have ov: "paginatedField_override r' = paginatedField_override r"
           "paginatedAscending_override r' = paginatedAscending_override r" by simp_all
  have a: "paginatedField_override r = None \<longrightarrow>
            paginatedField r = Inl (DeveloperError ''paginatedField getter must be overridden!'')"
    by (simp add: paginatedField_def)
  have b: "paginatedAscending_override r = None \<longrightarrow>
            paginatedAscending r =
              Inl (DeveloperError ''paginatedAscending getter must be overridden!'')"
    by (simp add: paginatedAscending_def)
  have c: "\<exists>m. fst (find_repo E q r s) = Inl (DeveloperError m)"
    using miss g x ov
    by (auto simp: find_repo_def paginatedField_def paginatedAscending_def split: option.splits)
  have d: "\<exists>m. fst (search_repo E q r s) = Inl (DeveloperError m)"
    using miss g x ov
    by (auto simp: search_repo_def paginatedField_def paginatedAscending_def split: option.splits)
  have e: "\<exists>m. fst (aggregatePaging E q r s) = Inl (DeveloperError m)"
    using miss g x ov
    by (auto simp: aggregatePaging_def paginatedField_def paginatedAscending_def
        split: option.splits)
  show ?thesis using a b c d e by simp
qed

theorem missing_pagination_override_witness:
  "fst (find_repo ref_env (api_query (JObj [])) (BaseRepository ''event'') empty_store)
     = Inl (DeveloperError ''paginatedField getter must be overridden!'')
   \<and> (\<exists>m. fst (search_repo ref_env (api_query (JObj [])) (BaseRepository ''event'') empty_store)
          = Inl (DeveloperError m))"
proof -
  have miss: "paginatedField_override (BaseRepository ''event'') = None
                \<or> paginatedAscending_override (BaseRepository ''event'') = None"
    by (simp add: BaseRepository_def)
  have coll: "fst (getCollection ref_env (BaseRepository ''event'') empty_store) = Inr ''event''"
    by (simp add: handle_of_def BaseRepository_def)
  have "fst (find_repo ref_env (api_query (JObj [])) (BaseRepository ''event'') empty_store)
     = Inl (DeveloperError ''paginatedField getter must be overridden!'')"
    by (simp add: find_repo_def with_handle_def BaseRepository_def paginatedField_def)
  with missing_pagination_override_throws_DeveloperError [OF miss coll, of "api_query (JObj [])"]
  show ?thesis by blast
qed

section \<open>Error wrapping\<close>

text \<open>
  C3. \<open>exists\<close> guards against an empty query with \<open>!apiQuery.query.keys.length\<close>.
  On a plain filter object \<open>query.keys\<close> is the property named \<open>keys\<close>, which the
  empty query \<open>{}\<close> and the query \<open>{ title: 'acme' }\<close> do not have: reading
  \<open>length\<close> of \<open>undefined\<close> throws a TypeError before the \<open>try\<close> block, which is
  neither the RepositoryError the empty query should get nor the boolean the other
  should get.
\<close>

theorem exists_reads_keys_property_TypeError:
  "fst (exists ref_env (api_query (JObj [])) OrganizationRepository empty_store)
     = Inl (TypeError ''Cannot read property length of undefined'')
   \<and> fst (exists ref_env (api_query (JObj [(''title'', JStr ''acme'')]))
           OrganizationRepository empty_store)
     = Inl (TypeError ''Cannot read property length of undefined'')
   \<and> \<not> is_RepositoryError (TypeError ''Cannot read property length of undefined'')"
  by (simp add: exists_def api_query_def keys_length_def and_then_def)

text \<open>
  C2. \<open>getNewOrganizationIdentifier\<close> calls \<open>findOneAndUpdate\<close> outside any \<open>try\<close>
  block: when the store call fails, the store's own exception reaches the caller,
  while \<open>create\<close> on the same failing store throws a RepositoryError wrapping it.
\<close>

theorem getNewOrganizationIdentifier_leaks_store_failure:
  "fst (getNewOrganizationIdentifier (failing_env (StoreFailure ''connection closed'')) empty_store)
     = Inl (StoreFailure ''connection closed'')
   \<and> \<not> is_RepositoryError (StoreFailure ''connection closed'')
   \<and> fst (create (failing_env (StoreFailure ''connection closed'')) (JObj [])
           OrganizationRepository empty_store)
     = Inl (RepositoryError (Cause (StoreFailure ''connection closed'')))"
  by (simp add: getNewOrganizationIdentifier_def failing_env_def ref_env_def failing_driver_def
      create_def rewrap_def getCollection_def OrganizationRepository_def)

section \<open>Selectors of the reference environment\<close>

lemma ref_env_sel [simp]:
  "db ref_env = ref_driver" "client_db ref_env" "MongoPaging ref_env = ref_pager 50 100"
  by (simp_all add: ref_env_def)

lemma failing_env_sel [simp]:
  "db (failing_env e) = failing_driver e" "client_db (failing_env e)"
  by (simp_all add: failing_env_def ref_env_def)

lemma ref_driver_sel [simp]:
  "insertOne ref_driver = ref_insertOne" "insertMany ref_driver = ref_insertMany"
  "findOneAndUpdate ref_driver = ref_findOneAndUpdate" "deleteOne ref_driver = ref_deleteOne"
  "countDocuments ref_driver = ref_countDocuments"
  "aggregate_toArray ref_driver = ref_aggregate_toArray"
  "find_toArray ref_driver = ref_find_toArray" "distinct_values ref_driver = ref_distinct"
  by (simp_all add: ref_driver_def)

lemma ref_pager_sel [simp]:
  "paging_find (ref_pager dflt mx) = ref_paging_find dflt mx"
  "paging_search (ref_pager dflt mx) = ref_paging_search dflt mx"
  "paging_aggregate (ref_pager dflt mx) = ref_paging_aggregate dflt mx"
  by (simp_all add: ref_pager_def)

section \<open>Projection\<close>

text \<open>
  C10. \<open>find\<close> hands the paging library \<open>fields: undefined\<close> when
  \<open>apiQuery.fields\<close> has no keys and \<open>fields: { projection: apiQuery.fields }\<close>
  when it has at least one, so the library is given a projection exactly for a non-empty
  \<open>fields\<close>; \<open>findOne\<close> always passes \<open>{ projection: apiQuery.fields }\<close> to the
  driver, also for an empty \<open>fields\<close>. Both hold on every call that obtains the
  collection handle, the first one included.
\<close>

theorem find_projection_iff_fields_nonempty:
  "map_of (find_params q pf pa) ''fields''
     = Some (if qfields q = [] then JUndefined else JObj [(''projection'', JObj (qfields q))])
   \<and> findOne_options q = [(''projection'', JObj (qfields q))]
   \<and> (fst (getCollection E r s) = Inr h \<longrightarrow>
        paginatedField r = Inr pf \<longrightarrow> paginatedAscending r = Inr pa \<longrightarrow>
        find_repo E q r s
          = (rewrap (paging_find (MongoPaging E) h (find_params q pf pa) s),
             snd (getCollection E r s), s))
   \<and> (fst (getCollection E r s) = Inr h \<longrightarrow>
        findOne E q r s =
          (rewrap (and_then
                     (find_toArray (db E) h (query q) [(''projection'', JObj (qfields q))] 1 s)
                     (\<lambda>result. case result of [] \<Rightarrow> Inr JUndefined | d # _ \<Rightarrow> Inr (JObj d))),
           snd (getCollection E r s), s))"
proof -
  have a: "map_of (find_params q pf pa) ''fields''
     = Some (if qfields q = [] then JUndefined else JObj [(''projection'', JObj (qfields q))])"
    by (simp add: find_params_def find_projection_def Object_keys_def)
  have b: "findOne_options q = [(''projection'', JObj (qfields q))]"
    by (simp add: findOne_options_def)
  have c: "fst (getCollection E r s) = Inr h \<longrightarrow>
        paginatedField r = Inr pf \<longrightarrow> paginatedAscending r = Inr pa \<longrightarrow>
        find_repo E q r s
          = (rewrap (paging_find (MongoPaging E) h (find_params q pf pa) s),
             snd (getCollection E r s), s)"
  proof (intro impI)
    assume coll: "fst (getCollection E r s) = Inr h"
      and pf: "paginatedField r = Inr pf" and pa: "paginatedAscending r = Inr pa"
    obtain r' where g: "getCollection E r s = (Inr h, r')"
      using coll by (cases "getCollection E r s") auto
    from getCollection_cases [OF g] pf pa
    have "paginatedField r' = Inr pf" "paginatedAscending r' = Inr pa"
      by (simp_all add: paginatedField_def paginatedAscending_def)
    then show "find_repo E q r s
          = (rewrap (paging_find (MongoPaging E) h (find_params q pf pa) s),
             snd (getCollection E r s), s)"
      by (simp add: find_repo_def g)
  qed
  have d: "fst (getCollection E r s) = Inr h \<longrightarrow>
        findOne E q r s =
          (rewrap (and_then
                     (find_toArray (db E) h (query q) [(''projection'', JObj (qfields q))] 1 s)
                     (\<lambda>result. case result of [] \<Rightarrow> Inr JUndefined | d # _ \<Rightarrow> Inr (JObj d))),
           snd (getCollection E r s), s)"
  proof
    assume coll: "fst (getCollection E r s) = Inr h"
    obtain r' where g: "getCollection E r s = (Inr h, r')"
      using coll by (cases "getCollection E r s") auto
    show "findOne E q r s =
          (rewrap (and_then
                     (find_toArray (db E) h (query q) [(''projection'', JObj (qfields q))] 1 s)
                     (\<lambda>result. case result of [] \<Rightarrow> Inr JUndefined | d # _ \<Rightarrow> Inr (JObj d))),
           snd (getCollection E r s), s)"
      by (simp add: findOne_def g findOne_options_def)
  qed
  from a b c d show ?thesis by (intro conjI)
qed

text \<open>Both cases of the projection on a first call of the organization repository.\<close>

theorem find_projection_witness:
  "map_of (find_params (api_query (JObj [])) ''createdOn'' False) ''fields'' = Some JUndefined
   \<and> map_of (find_params ((api_query (JObj []))\<lparr>qfields := [(''title'', JNum 1)]\<rparr>) ''createdOn'' False)
        ''fields'' = Some (JObj [(''projection'', JObj [(''title'', JNum 1)])])
   \<and> findOne_options (api_query (JObj [])) = [(''projection'', JObj [])]
   \<and> find_repo ref_env (api_query (JObj [])) OrganizationRepository empty_store
       = (rewrap (ref_paging_find 50 100 ''organization''
                    (find_params (api_query (JObj [])) ''createdOn'' False) empty_store),
          with_handle OrganizationRepository, empty_store)
   \<and> findOne ref_env (api_query (JObj [])) OrganizationRepository empty_store
       = (rewrap (and_then
                    (ref_find_toArray ''organization'' (JObj []) [(''projection'', JObj [])] 1
                       empty_store)
                    (\<lambda>result. case result of [] \<Rightarrow> Inr JUndefined | d # _ \<Rightarrow> Inr (JObj d))),
          with_handle OrganizationRepository, empty_store)"
proof -
  have c: "fst (getCollection ref_env OrganizationRepository empty_store) = Inr ''organization''"
    by (simp add: handle_of_def OrganizationRepository_def)
  have f: "paginatedField OrganizationRepository = Inr ''createdOn''"
    by (simp add: OrganizationRepository_def paginatedField_def)
  have a: "paginatedAscending OrganizationRepository = Inr False"
    by (simp add: OrganizationRepository_def paginatedAscending_def)
  have q: "qfields (api_query (JObj [])) = []" "query (api_query (JObj [])) = JObj []"
    by (simp_all add: api_query_def)
  from find_projection_iff_fields_nonempty
         [of "api_query (JObj [])" "''createdOn''" False ref_env OrganizationRepository
             empty_store "''organization''"]
       find_projection_iff_fields_nonempty
         [of "(api_query (JObj []))\<lparr>qfields := [(''title'', JNum 1)]\<rparr>" "''createdOn''" False,
          THEN conjunct1]
       c f a q
  show ?thesis by simp
qed

section \<open>Where store failures are wrapped, and where they are not\<close>

text \<open>
  With the collection handle cached, every method of \<open>BaseRepository\<close> turns a
  failure of its store call into a RepositoryError that wraps it. A failure of
  \<open>getConnection\<close> happens before the \<open>try\<close> block of a method and reaches the
  caller as it is, and so does a failure of the store call in
  \<open>getNewOrganizationIdentifier\<close>. The guard of \<open>exists\<close> lets a query through
  only if it has a property named \<open>keys\<close> with a non-zero length.
\<close>

lemma getCollection_cached: "collection r = Some h \<Longrightarrow> getCollection E r s = (Inr h, r)"
  by (simp add: getCollection_def)

lemma writes_wrap_store_failure:
  assumes c: "collection r = Some h"
  shows "insertOne (db E) h item s = (Inl e, s') \<Longrightarrow>
           fst (create E item r s) = Inl (RepositoryError (Cause e))"
    and "insertMany (db E) h items s = (Inl e, s') \<Longrightarrow>
           fst (createBulk E items r s) = Inl (RepositoryError (Cause e))"
    and "findOneAndUpdate (db E) h (query q) [(''$set'', item)] (update_options cr) s = (Inl e, s') \<Longrightarrow>
           fst (update E q item cr r s) = Inl (RepositoryError (Cause e))"
    and "deleteOne (db E) h (query q) s = (Inl e, s') \<Longrightarrow>
           fst (deleteOne_repo E q r s) = Inl (RepositoryError (Cause e))"
    and "findOneAndUpdate (db E) h (query q) (findOneOrCreate_update now u)
             findOneOrCreate_options s = (Inl e, s') \<Longrightarrow>
           fst (findOneOrCreate E now q u r s) = Inl (RepositoryError (Cause e))"
  by (simp_all add: create_def createBulk_def update_def deleteOne_repo_def findOneOrCreate_def
      getCollection_cached [OF c] rewrap_def and_then_def)

lemma reads_wrap_store_failure:
  assumes c: "collection r = Some h"
  shows "countDocuments (db E) h f s = Inl e \<Longrightarrow>
           fst (count_repo E f r s) = Inl (RepositoryError (Cause e))"
    and "aggregate_toArray (db E) h (query q) s = Inl e \<Longrightarrow>
           fst (aggregate E q r s) = Inl (RepositoryError (Cause e))"
    and "distinct_values (db E) h field s = Inl e \<Longrightarrow>
           fst (distinct_repo E field r s) = Inl (RepositoryError (Cause e))"
    and "find_toArray (db E) h (query q) (findOne_options q) 1 s = Inl e \<Longrightarrow>
           fst (findOne E q r s) = Inl (RepositoryError (Cause e))"
  by (simp_all add: count_repo_def aggregate_def distinct_repo_def findOne_def
      getCollection_cached [OF c] rewrap_def and_then_def)

lemma paged_wrap_store_failure:
  assumes c: "collection r = Some h"
    and pf: "paginatedField r = Inr f" and pa: "paginatedAscending r = Inr a"
  shows "paging_find (MongoPaging E) h (find_params q f a) s = Inl e \<Longrightarrow>
           fst (find_repo E q r s) = Inl (RepositoryError (Cause e))"
    and "paging_search (MongoPaging E) h (search q) (search_params q) s = Inl e \<Longrightarrow>
           fst (search_repo E q r s) = Inl (RepositoryError (Cause e))"
    and "paging_aggregate (MongoPaging E) h (aggregatePaging_params q f a) s = Inl e \<Longrightarrow>
           fst (aggregatePaging E q r s) = Inl (RepositoryError (Cause e))"
  by (simp_all add: find_repo_def search_repo_def aggregatePaging_def
      getCollection_cached [OF c] pf pa rewrap_def)

lemma connection_failure_is_not_wrapped:
  assumes "collection r = None" "getConnection E s = Inl e"
  shows "fst (create E item r s) = Inl e" "fst (find_repo E q r s) = Inl e"
    "fst (exists E q r s) = Inl e" "fst (update E q item cr r s) = Inl e"
  using assms
  by (simp_all add: create_def find_repo_def exists_def update_def getCollection_def)

lemma organization_identifier_failure_is_not_wrapped:
  assumes "client_db E"
    and "findOneAndUpdate (db E) ''identityCounter'' counter_filter counter_update
           counter_options s = (Inl e, s')"
  shows "getNewOrganizationIdentifier E s = (Inl e, s')"
  using assms by (simp add: getNewOrganizationIdentifier_def)

lemma exists_guard_outcomes:
  assumes c: "collection r = Some h"
  shows "keys_length (query q) = Inl e \<Longrightarrow> fst (exists E q r s) = Inl e"
    and "keys_length (query q) = Inr len \<Longrightarrow> \<not> truthy len \<Longrightarrow>
           fst (exists E q r s) = Inl (RepositoryError (Reason ''Invalid query for exists''))"
    and "keys_length (query q) = Inr len \<Longrightarrow> truthy len \<Longrightarrow>
           fst (exists E q r s)
             = rewrap (and_then (find_toArray (db E) h (query q) [(''_id'', JNum 1)] 1 s)
                         (\<lambda>result. Inr (length result > 0)))"
  by (simp_all add: exists_def getCollection_cached [OF c])

section \<open>Existence checks\<close>

lemma existsOR_reduce_plain:
  assumes "map_of ob ''hasOwnProperty'' = None"
  shows "existsOR_reduce (Plain ob) flds rv
           = Inr (rv @ map (\<lambda>f. [(f, obj_get ob f)]) (filter (hasOwnProperty ob) flds))"
  using assms by (induction flds arbitrary: rv) auto

lemma existsOR_reduce_throws:
  assumes "hasOwnProperty_call ob field = Inl e"
  shows "existsOR_reduce ob (field # flds) rv = Inl e"
  using assms by simp

lemma existsOR_throws_before_try:
  assumes "fst (getCollection E r s) = Inr h" "hasOwnProperty_call ob field = Inl e"
  shows "fst (existsOR E ob (field # flds) r s) = Inl e"
proof -
  obtain r' where g: "getCollection E r s = (Inr h, r')"
    using assms(1) by (cases "getCollection E r s") auto
  show ?thesis by (simp add: existsOR_def g assms(2))
qed

lemma ref_find_toArray_nonempty:
  "ref_find_toArray h q opts 1 s = Inr ds \<Longrightarrow> (ds \<noteq> []) = (\<exists>d \<in> set (colls s h). matches q d)"
  by (auto simp: ref_find_toArray_def Let_def filter_empty_conv take_Suc
      split: if_splits list.splits)

lemma matches_or_query:
  "matches (JObj [(''$or'', JArr (map JObj (map (\<lambda>f. [(f, obj_get ob f)])
                                            (filter (hasOwnProperty ob) flds))))]) d
     = (\<exists>f \<in> set flds. hasOwnProperty ob f \<and> map_of d f = Some (obj_get ob f))"
  by (auto simp: matches_def clause_matches_def list_ex_iff eq_matches_def)

text \<open>
  C4, as amended. Let \<open>obj\<close> be an object that inherits \<open>hasOwnProperty\<close> from
  \<open>Object.prototype\<close> and has no own property of that name. Then
  \<open>existsOR(obj, ...fields)\<close> builds one clause \<open>{ [field]: obj[field] }\<close> for each
  listed field that is an own property of \<open>obj\<close>, in the order listed. With no such
  field it throws \<open>RepositoryError({ reason: 'Invalid query for existsOR' })\<close> and the
  store is not queried. Otherwise it asks the store for at most one document matching
  \<open>{ $or: clauses }\<close> and returns whether one came back; on the reference store with
  a collection of flat documents that is the case exactly when a stored document
  carries the value of \<open>obj\<close> under one of the present fields.
\<close>

theorem existsOR_or_query_over_present_fields:
  assumes coll: "fst (getCollection E r s) = Inr h"
    and own: "map_of ob ''hasOwnProperty'' = None"
  shows "existsOR_reduce (Plain ob) flds []
           = Inr (map (\<lambda>f. [(f, obj_get ob f)]) (filter (hasOwnProperty ob) flds))
     \<and> ((\<forall>f \<in> set flds. \<not> hasOwnProperty ob f) \<longrightarrow>
          existsOR E (Plain ob) flds r s =
            (Inl (RepositoryError (Reason ''Invalid query for existsOR'')),
             snd (getCollection E r s), s))
     \<and> ((\<exists>f \<in> set flds. hasOwnProperty ob f) \<longrightarrow>
          existsOR E (Plain ob) flds r s =
            (rewrap (and_then
                       (find_toArray (db E) h
                          (JObj [(''$or'', JArr (map JObj (map (\<lambda>f. [(f, obj_get ob f)])
                                                   (filter (hasOwnProperty ob) flds))))])
                          [(''_id'', JNum 1)] 1 s)
                       (\<lambda>result. Inr (result \<noteq> []))), snd (getCollection E r s), s))
     \<and> (flat_collection s0 (handle_of r0) \<longrightarrow>
        fst (existsOR ref_env (Plain ob) flds r0 s0) = Inr b \<longrightarrow>
          b = (\<exists>d \<in> set (colls s0 (handle_of r0)). \<exists>f \<in> set flds.
                 hasOwnProperty ob f \<and> map_of d f = Some (obj_get ob f)))"
proof -
  let ?cl = "map (\<lambda>f. [(f, obj_get ob f)]) (filter (hasOwnProperty ob) flds)"
  obtain r' where g: "getCollection E r s = (Inr h, r')"
    using coll by (cases "getCollection E r s") auto
  have a: "existsOR_reduce (Plain ob) flds [] = Inr ?cl"
    using existsOR_reduce_plain [OF own, of flds "[]"] by simp
  have b: "(\<forall>f \<in> set flds. \<not> hasOwnProperty ob f) \<longrightarrow>
          existsOR E (Plain ob) flds r s =
            (Inl (RepositoryError (Reason ''Invalid query for existsOR'')),
             snd (getCollection E r s), s)"
    by (simp add: existsOR_def g a filter_empty_conv)
  have c: "(\<exists>f \<in> set flds. hasOwnProperty ob f) \<longrightarrow>
          existsOR E (Plain ob) flds r s =
            (rewrap (and_then
                       (find_toArray (db E) h (JObj [(''$or'', JArr (map JObj ?cl))])
                          [(''_id'', JNum 1)] 1 s)
                       (\<lambda>result. Inr (result \<noteq> []))), snd (getCollection E r s), s)"
    by (auto simp: existsOR_def g a filter_empty_conv)
  have d: "flat_collection s0 (handle_of r0) \<longrightarrow>
        fst (existsOR ref_env (Plain ob) flds r0 s0) = Inr b \<longrightarrow>
          b = (\<exists>d \<in> set (colls s0 (handle_of r0)). \<exists>f \<in> set flds.
                 hasOwnProperty ob f \<and> map_of d f = Some (obj_get ob f))"
  proof (intro impI)
    assume res: "fst (existsOR ref_env (Plain ob) flds r0 s0) = Inr b"
    let ?q = "JObj [(''$or'', JArr (map JObj ?cl))]"
    from res obtain ds
      where f: "ref_find_toArray (handle_of r0) ?q [(''_id'', JNum 1)] 1 s0 = Inr ds"
        and bb: "b = (ds \<noteq> [])"
      by (auto simp: existsOR_def a rewrap_def and_then_def split: if_splits sum.splits)
    from ref_find_toArray_nonempty [OF f] show
      "b = (\<exists>d \<in> set (colls s0 (handle_of r0)). \<exists>f \<in> set flds.
                 hasOwnProperty ob f \<and> map_of d f = Some (obj_get ob f))"
      by (simp only: bb matches_or_query)
  qed
  from a b c d show ?thesis by (intro conjI)
qed

theorem existsOR_witness:
  "fst (existsOR ref_env (Plain [(''eventId'', JStr ''e1'')]) [''eventId'']
          EventRepository event_store)
     = Inr True
   \<and> fst (existsOR ref_env (Plain [(''eventId'', JStr ''e1'')]) [''assetId'']
            EventRepository event_store)
       = Inl (RepositoryError (Reason ''Invalid query for existsOR''))"
proof -
  have coll: "fst (getCollection ref_env EventRepository event_store) = Inr ''event''"
    by (simp add: handle_of_def EventRepository_def)
  have own: "map_of [(''eventId'', JStr ''e1'')] ''hasOwnProperty'' = None" by simp
  have h1: "\<forall>f \<in> set [''assetId'']. \<not> hasOwnProperty [(''eventId'', JStr ''e1'')] f"
    by (simp add: hasOwnProperty_def)
  have h2: "\<exists>f \<in> set [''eventId'']. hasOwnProperty [(''eventId'', JStr ''e1'')] f"
    by (simp add: hasOwnProperty_def)
  from existsOR_or_query_over_present_fields
         [OF coll own, where flds = "[''assetId'']"] h1
  have e: "fst (existsOR ref_env (Plain [(''eventId'', JStr ''e1'')]) [''assetId'']
                  EventRepository event_store)
       = Inl (RepositoryError (Reason ''Invalid query for existsOR''))"
    by simp
  from existsOR_or_query_over_present_fields
         [OF coll own, where flds = "[''eventId'']"] h2
  have "existsOR ref_env (Plain [(''eventId'', JStr ''e1'')]) [''eventId'']
          EventRepository event_store
        = (rewrap (and_then
             (find_toArray (db ref_env) ''event''
                (JObj [(''$or'', JArr (map JObj (map (\<lambda>f. [(f, obj_get [(''eventId'', JStr ''e1'')] f)])
                         (filter (hasOwnProperty [(''eventId'', JStr ''e1'')]) [''eventId'']))))])
                [(''_id'', JNum 1)] 1 event_store)
             (\<lambda>result. Inr (result \<noteq> []))),
           snd (getCollection ref_env EventRepository event_store), event_store)"
    by simp
  then have v: "fst (existsOR ref_env (Plain [(''eventId'', JStr ''e1'')]) [''eventId'']
                  EventRepository event_store) = Inr True"
    by (simp add: hasOwnProperty_def obj_get_def
        ref_find_toArray_def supported_def supported_clause_def
        eq_object_def eq_clause_def plain_key_def matches_def clause_matches_def eq_matches_def
        project_def rewrap_def and_then_def event_store_def)
  from v e show ?thesis by simp
qed

text \<open>
  An object with an own property named \<open>hasOwnProperty\<close>: the listed field \<open>a\<close> is
  present, and the call \<open>obj.hasOwnProperty('a')\<close> throws.
\<close>

theorem existsOR_shadowed_hasOwnProperty_counterexample:
  "hasOwnProperty [(''a'', JNum 2), (''hasOwnProperty'', JNum 1)] ''a''
   \<and> fst (existsOR ref_env (Plain [(''a'', JNum 2), (''hasOwnProperty'', JNum 1)]) [''a'']
            EventRepository event_store)
       = Inl (TypeError ''obj.hasOwnProperty is not a function'')
   \<and> \<not> is_RepositoryError (TypeError ''obj.hasOwnProperty is not a function'')"
  by (simp add: hasOwnProperty_def existsOR_def)

section \<open>Bulk insert\<close>

lemma ref_insertMany_count:
  "ref_insertMany h items s = (Inr v, s') \<Longrightarrow> items \<noteq> [] \<and> v = write_result (length items)"
  by (auto simp: ref_insertMany_def split: if_splits prod.splits sum.splits)

text \<open>
  C8, as amended. \<open>createBulk\<close> hands the list to \<open>insertMany\<close> without looking at
  it and returns the count \<open>result.result.n\<close> the store reports; a failure of the store
  call is re-thrown as a RepositoryError wrapping it. On the reference store a call that
  returns was given a non-empty list of \<open>N\<close> documents and returns \<open>N\<close>, so the count is
  at most \<open>N\<close>; the empty list is rejected by the store as an empty batch.
\<close>

theorem createBulk_returns_store_count:
  assumes coll: "fst (getCollection E r s) = Inr h"
  shows "(insertMany (db E) h items s = (Inl e, s') \<longrightarrow>
           createBulk E items r s = (Inl (RepositoryError (Cause e)), snd (getCollection E r s), s'))
       \<and> (insertMany (db E) h items s = (Inr (write_result n), s') \<longrightarrow>
           createBulk E items r s = (Inr (JNum (int n)), snd (getCollection E r s), s'))
       \<and> (fst (createBulk ref_env items r0 s0) = Inr v \<longrightarrow>
           items \<noteq> [] \<and> v = JNum (int (length items)))"
proof -
  obtain r' where g: "getCollection E r s = (Inr h, r')"
    using coll by (cases "getCollection E r s") auto
  have a: "insertMany (db E) h items s = (Inl e, s') \<longrightarrow>
           createBulk E items r s = (Inl (RepositoryError (Cause e)), snd (getCollection E r s), s')"
    by (simp add: createBulk_def g rewrap_def and_then_def)
  have b: "insertMany (db E) h items s = (Inr (write_result n), s') \<longrightarrow>
           createBulk E items r s = (Inr (JNum (int n)), snd (getCollection E r s), s')"
    by (simp add: createBulk_def g rewrap_def and_then_def write_result_def)
  have c: "fst (createBulk ref_env items r0 s0) = Inr v \<longrightarrow>
           items \<noteq> [] \<and> v = JNum (int (length items))"
  proof
    assume res: "fst (createBulk ref_env items r0 s0) = Inr v"
    obtain x s1 where im: "ref_insertMany (handle_of r0) items s0 = (x, s1)"
      by (cases "ref_insertMany (handle_of r0) items s0")
    show "items \<noteq> [] \<and> v = JNum (int (length items))"
    proof (cases x)
      case (Inl err)
      with res im show ?thesis by (simp add: createBulk_def rewrap_def and_then_def)
    next
      case (Inr w)
      with im have "items \<noteq> [] \<and> w = write_result (length items)"
        using ref_insertMany_count by blast
      with res im Inr show ?thesis
        by (simp add: createBulk_def rewrap_def and_then_def write_result_def)
    qed
  qed
  show ?thesis using a b c by blast
qed

theorem createBulk_empty_list_counterexample:
  "fst (createBulk ref_env [] OrganizationRepository empty_store)
     = Inl (RepositoryError (Cause (StoreFailure ''Invalid Operation, no operations specified'')))
   \<and> fst (createBulk ref_env [] OrganizationRepository empty_store) \<noteq> Inr (JNum 0)"
  by (simp add: createBulk_def ref_insertMany_def rewrap_def and_then_def)

theorem createBulk_witness:
  "fst (createBulk ref_env [JObj [(''title'', JStr ''a'')], JObj [(''title'', JStr ''b'')] ]
          OrganizationRepository empty_store) = Inr (JNum 2)
   \<and> fst (createBulk (failing_env (StoreFailure ''down'')) [JObj [] ] OrganizationRepository empty_store)
       = Inl (RepositoryError (Cause (StoreFailure ''down'')))"
proof -
  let ?items = "[JObj [(''title'', JStr ''a'')], JObj [(''title'', JStr ''b'')] ]"
  have coll: "fst (getCollection (failing_env (StoreFailure ''down'')) OrganizationRepository empty_store)
                = Inr ''organization''"
    by (simp add: handle_of_def OrganizationRepository_def)
  have f: "insertMany (db (failing_env (StoreFailure ''down''))) ''organization'' [JObj [] ] empty_store
             = (Inl (StoreFailure ''down''), empty_store)"
    by (simp add: failing_driver_def)
  have v: "fst (createBulk ref_env ?items OrganizationRepository empty_store) = Inr (JNum 2)"
    by (simp add: createBulk_def ref_insertMany_def ref_insertOne_def with_id_def has_id_def
        obj_get_def put_coll_def empty_store_def handle_of_def OrganizationRepository_def
        eq_clause_def plain_key_def Let_def rewrap_def and_then_def write_result_def)
  from createBulk_returns_store_count [OF coll, where items = "[JObj [] ]" and e = "StoreFailure ''down''"
         and s' = empty_store] f
  have "fst (createBulk (failing_env (StoreFailure ''down'')) [JObj [] ] OrganizationRepository empty_store)
       = Inl (RepositoryError (Cause (StoreFailure ''down'')))" by simp
  with v show ?thesis by simp
qed

section \<open>The organization identifier counter\<close>

lemma map_of_set_field: "map_of (set_field k v d) = (map_of d)(k \<mapsto> v)"
  by (induction d) (auto simp: fun_eq_iff)

lemma supported_counter [simp]: "supported counter_filter"
  by (simp add: supported_def counter_filter_def supported_clause_def eq_clause_def plain_key_def)

lemma matches_counter: "matches counter_filter d = (map_of d ''indentity'' = Some (JStr ''organization_index''))"
  by (simp add: matches_def counter_filter_def clause_matches_def)

lemma dropWhile_replace:
  assumes "dropWhile (\<lambda>d. \<not> P d) ds = d # post" "P d'"
  shows "dropWhile (\<lambda>d. \<not> P d) (takeWhile (\<lambda>d. \<not> P d) ds @ d' # post) = d' # post"
proof -
  have "\<And>x. x \<in> set (takeWhile (\<lambda>d. \<not> P d) ds) \<Longrightarrow> \<not> P x"
    by (auto dest: set_takeWhileD)
  then show ?thesis using assms(2) by (simp add: dropWhile_append2)
qed

lemma dropWhile_snoc_new:
  assumes "dropWhile (\<lambda>d. \<not> P d) ds = []" "P d'"
  shows "dropWhile (\<lambda>d. \<not> P d) (ds @ [d']) = [d']"
proof -
  from assms(1) have "\<And>x. x \<in> set ds \<Longrightarrow> \<not> P x" by (simp add: dropWhile_eq_Nil_conv)
  then show ?thesis using assms(2) by (simp add: dropWhile_append2)
qed

lemma fau_insert:
  assumes "supported q" "dropWhile (\<lambda>d. \<not> matches q d) (colls s h) = []"
    "truthy (obj_get opts ''upsert'')" "\<not> returnOriginal_of opts"
    "apply_modifiers True upd (seed_of q) = Inr d'"
  shows "ref_findOneAndUpdate h q upd opts s
           = (Inr (fau_result (JObj (with_id (next_oid s) d'))),
              (put_coll h (colls s h @ [with_id (next_oid s) d']) s)
                \<lparr>next_oid := Suc (next_oid s)\<rparr>)"
  using assms by (simp add: ref_findOneAndUpdate_def del: dropWhile_eq_Nil_conv)

lemma fau_modify:
  assumes "supported q" "dropWhile (\<lambda>d. \<not> matches q d) (colls s h) = d # post"
    "\<not> returnOriginal_of opts" "apply_modifiers False upd d = Inr d'"
  shows "ref_findOneAndUpdate h q upd opts s
           = (Inr (fau_result (JObj d')),
              put_coll h (takeWhile (\<lambda>d. \<not> matches q d) (colls s h) @ d' # post) s)"
  using assms by (simp add: ref_findOneAndUpdate_def)

lemma dropWhile_hd_holds: "dropWhile (\<lambda>d. \<not> P d) ds = d # post \<Longrightarrow> P d"
  using hd_dropWhile [of "\<lambda>d. \<not> P d" ds] by simp

lemma counter_opts [simp]:
  "truthy (obj_get counter_options ''upsert'')" "\<not> returnOriginal_of counter_options"
  by (simp_all add: counter_options_def obj_get_def returnOriginal_of_def)

lemma value_count [simp]:
  "and_then (get_prop (fau_result (JObj d)) ''value'') (\<lambda>v. get_prop v ''count'')
     = Inr (obj_get d ''count'')"
  by (simp add: fau_result_def and_then_def obj_get_def split: option.splits)







lemma colls_put_coll [simp]:
  "colls (put_coll h ds s) h = ds"
  "next_oid (put_coll h ds s) = next_oid s"
  by (simp_all add: put_coll_def)

lemma counter_of_first:
  assumes "colls s ''identityCounter'' = ds"
    and "dropWhile (\<lambda>d. \<not> matches counter_filter d) ds = d # post"
    and "map_of d ''count'' = Some (JNum c)"
  shows "counter_of s = Some c"
  using assms by (simp add: counter_of_def)

lemma counter_step:
  assumes c: "counter_of s = Some c"
  shows "fst (getNewOrganizationIdentifier ref_env s) = Inr (JNum (c + 9))
       \<and> counter_of (snd (getNewOrganizationIdentifier ref_env s)) = Some (c + 9)"
proof (cases "dropWhile (\<lambda>d. \<not> matches counter_filter d) (colls s ''identityCounter'')")
  case Nil
  with c have c0: "c = 0" by (simp add: counter_of_def del: dropWhile_eq_Nil_conv)
  let ?d = "[(''_id'', JId (next_oid s)), (''indentity'', JStr ''organization_index''),
             (''count'', JNum 9)]"
  let ?s' = "(put_coll ''identityCounter'' (colls s ''identityCounter'' @ [?d]) s)
               \<lparr>next_oid := Suc (next_oid s)\<rparr>"
  have ap: "apply_modifiers True counter_update (seed_of counter_filter)
              = Inr [(''indentity'', JStr ''organization_index''), (''count'', JNum 9)]"
    by (simp add: seed_of_def counter_filter_def eq_clause_def plain_key_def counter_update_def)
  have wid: "with_id (next_oid s) [(''indentity'', JStr ''organization_index''), (''count'', JNum 9)]
               = ?d"
    by (simp add: with_id_def)
  have m: "matches counter_filter ?d" by (simp add: matches_counter)
  have call: "getNewOrganizationIdentifier ref_env s = (Inr (JNum (c + 9)), ?s')"
    by (simp add: getNewOrganizationIdentifier_def
        fau_insert [OF supported_counter Nil counter_opts ap] wid obj_get_def c0)
  have cs: "colls ?s' ''identityCounter'' = colls s ''identityCounter'' @ [?d]" by simp
  have cnt: "map_of ?d ''count'' = Some (JNum (c + 9))" by (simp add: c0)
  have fin: "counter_of ?s' = Some (c + 9)"
    by (rule counter_of_first [OF cs dropWhile_snoc_new [where P = "matches counter_filter", OF Nil m] cnt])
  show ?thesis unfolding call fst_conv snd_conv using fin by (intro conjI refl)
next
  case (Cons d post)
  have md: "matches counter_filter d" by (rule dropWhile_hd_holds [where P = "matches counter_filter", OF Cons])
  let ?d' = "set_field ''count'' (JNum (c + 9)) d"
  let ?s' = "put_coll ''identityCounter''
               (takeWhile (\<lambda>d. \<not> matches counter_filter d) (colls s ''identityCounter'')
                  @ ?d' # post) s"
  from c Cons have cnt: "map_of d ''count'' = None \<and> c = 0 \<or> map_of d ''count'' = Some (JNum c)"
    by (simp add: counter_of_def split: option.splits jsval.splits)
  then have ap: "apply_modifiers False counter_update d = Inr ?d'"
    by (auto simp: counter_update_def eq_clause_def plain_key_def)
  have m: "matches counter_filter ?d'"
    using md by (simp add: matches_counter map_of_set_field)
  have call: "getNewOrganizationIdentifier ref_env s = (Inr (JNum (c + 9)), ?s')"
    by (simp add: getNewOrganizationIdentifier_def
        fau_modify [OF supported_counter Cons counter_opts(2) ap] obj_get_def map_of_set_field)
  have cs: "colls ?s' ''identityCounter''
              = takeWhile (\<lambda>d. \<not> matches counter_filter d) (colls s ''identityCounter'') @ ?d' # post"
    by simp
  have cnt': "map_of ?d' ''count'' = Some (JNum (c + 9))" by (simp add: map_of_set_field)
  have fin: "counter_of ?s' = Some (c + 9)"
    by (rule counter_of_first [OF cs dropWhile_replace [where P = "matches counter_filter", OF Cons m] cnt'])
  show ?thesis unfolding call fst_conv snd_conv using fin by (intro conjI refl)
qed

lemma mint_ids_values:
  "counter_of s = Some c \<Longrightarrow>
     mint_ids n s = map (\<lambda>i. Inr (JNum (c + 9 * (int i + 1)))) [0..<n]"
proof (induction n arbitrary: s c)
  case 0
  show ?case by simp
next
  case (Suc n)
  obtain x s' where xs: "getNewOrganizationIdentifier ref_env s = (x, s')"
    by (cases "getNewOrganizationIdentifier ref_env s")
  with counter_step [OF Suc.prems]
  have st: "getNewOrganizationIdentifier ref_env s = (Inr (JNum (c + 9)), s')"
      and c': "counter_of s' = Some (c + 9)" by simp_all
  have "mint_ids (Suc n) s = Inr (JNum (c + 9)) # mint_ids n s'" by (simp add: st)
  also have "mint_ids n s' = map (\<lambda>i. Inr (JNum (c + 9 + 9 * (int i + 1)))) [0..<n]"
    by (rule Suc.IH [OF c'])
  also have "Inr (JNum (c + 9)) # map (\<lambda>i. Inr (JNum (c + 9 + 9 * (int i + 1)))) [0..<n]
             = map (\<lambda>i. Inr (JNum (c + 9 * (int i + 1)))) [0..<Suc n]"
    by (simp add: upt_conv_Cons map_Suc_upt [symmetric] algebra_simps del: upt_Suc)
  finally show ?case .
qed

text \<open>
  C7. On the reference store, \<open>getNewOrganizationIdentifier\<close> increments the
  counter document by 9 and returns the new value: from an empty store two sequential
  calls return 9 and then 18, and from a counter value \<open>c\<close> the \<open>i\<close>-th of
  \<open>n\<close> sequential calls returns \<open>c + 9 * i\<close>, so every call returns, the values
  are strictly increasing and none is returned twice.
\<close>

theorem organization_identifiers_step_nine:
  "fst (getNewOrganizationIdentifier ref_env empty_store) = Inr (JNum 9)
   \<and> fst (getNewOrganizationIdentifier ref_env
            (snd (getNewOrganizationIdentifier ref_env empty_store))) = Inr (JNum 18)
   \<and> (counter_of s = Some c \<longrightarrow>
        mint_ids n s = map (\<lambda>i. Inr (JNum (c + 9 * (int i + 1)))) [0..<n]
        \<and> distinct (mint_ids n s)
        \<and> sorted_wrt (\<lambda>a b. \<exists>x y. a = Inr (JNum x) \<and> b = Inr (JNum y) \<and> x < y) (mint_ids n s))"
proof -
  have e: "counter_of empty_store = Some 0" by (simp add: counter_of_def empty_store_def)
  from mint_ids_values [OF e, of 2]
  have two: "mint_ids 2 empty_store = [Inr (JNum 9), Inr (JNum 18)]"
    by (simp add: numeral_2_eq_2)
  then have a: "fst (getNewOrganizationIdentifier ref_env empty_store) = Inr (JNum 9)
   \<and> fst (getNewOrganizationIdentifier ref_env
            (snd (getNewOrganizationIdentifier ref_env empty_store))) = Inr (JNum 18)"
    by (simp add: numeral_2_eq_2 split: prod.splits)
  have b: "counter_of s = Some c \<longrightarrow>
        mint_ids n s = map (\<lambda>i. Inr (JNum (c + 9 * (int i + 1)))) [0..<n]
        \<and> distinct (mint_ids n s)
        \<and> sorted_wrt (\<lambda>a b. \<exists>x y. a = Inr (JNum x) \<and> b = Inr (JNum y) \<and> x < y) (mint_ids n s)"
  proof
    assume c: "counter_of s = Some c"
    have v: "mint_ids n s = map (\<lambda>i. Inr (JNum (c + 9 * (int i + 1)))) [0..<n]"
      by (rule mint_ids_values [OF c])
    have d: "distinct (map (\<lambda>i. (Inr (JNum (c + 9 * (int i + 1))) :: thrown + jsval)) [0..<n])"
      by (simp add: distinct_map inj_on_def)
    have s: "sorted_wrt (\<lambda>a b. \<exists>x y. a = Inr (JNum x) \<and> b = Inr (JNum y) \<and> x < y)
               (map (\<lambda>i. (Inr (JNum (c + 9 * (int i + 1))) :: thrown + jsval)) [0..<n])"
      by (simp add: sorted_wrt_map sorted_wrt_iff_nth_less)
    show "mint_ids n s = map (\<lambda>i. Inr (JNum (c + 9 * (int i + 1)))) [0..<n]
        \<and> distinct (mint_ids n s)
        \<and> sorted_wrt (\<lambda>a b. \<exists>x y. a = Inr (JNum x) \<and> b = Inr (JNum y) \<and> x < y) (mint_ids n s)"
      using v d s by simp
  qed
  show ?thesis using a b by blast
qed

theorem organization_identifiers_witness:
  "mint_ids 3 empty_store = [Inr (JNum 9), Inr (JNum 18), Inr (JNum 27)]
   \<and> distinct (mint_ids 3 empty_store)"
proof -
  have e: "counter_of empty_store = Some 0" by (simp add: counter_of_def empty_store_def)
  from organization_identifiers_step_nine [of empty_store 0 3] e
  show ?thesis by (simp add: numeral_3_eq_3)
qed

section \<open>Paginated operations\<close>

lemma map_of_obj_get: "map_of ob k = Some v \<Longrightarrow> obj_get ob k = v"
  by (simp add: obj_get_def)

lemma page_limit_le: "1 \<le> L \<Longrightarrow> int (page_limit dflt mx (JNum L)) \<le> L"
  by (simp add: page_limit_def)

lemma length_make_page: "int (length (results (make_page n ds))) \<le> int n"
  by (simp add: make_page_def)

lemma ordered_by_sort_docs: "ordered_by f a (sort_docs f a ds)"
proof -
  let ?k = "\<lambda>d. sort_code (field_value f d)"
  let ?up = "\<lambda>x y. value_le (field_value f x) (field_value f y)"
  have "sorted (map ?k (sort_key ?k ds))" by (rule sorted_sort_key)
  then have "sorted_wrt (\<lambda>x y. ?k x \<le> ?k y) (sort_key ?k ds)"
    by (simp add: sorted_map)
  then have up: "sorted_wrt ?up (sort_key ?k ds)"
    by (rule sorted_wrt_mono_rel [rotated]) (simp add: value_le_def)
  show ?thesis
  proof (cases a)
    case True
    with up show ?thesis by (simp add: ordered_by_def sort_docs_def)
  next
    case False
    from up have "sorted_wrt (\<lambda>x y. ?up y x) (rev (sort_key ?k ds))"
      by (simp add: sorted_wrt_rev)
    with False show ?thesis by (simp add: ordered_by_def sort_docs_def)
  qed
qed

lemma ordered_by_take: "ordered_by f a ds \<Longrightarrow> ordered_by f a (take n ds)"
  by (simp add: ordered_by_def sorted_wrt_take)

lemma ref_find_contract: "find_contract (ref_pager dflt mx)"
  unfolding find_contract_def
proof (intro allI impI)
  fix h params s res L f a
  assume r: "paging_find (ref_pager dflt mx) h params s = Inr res"
    and l: "map_of params ''limit'' = Some (JNum L)" and L: "1 \<le> L"
    and pf: "map_of params ''paginatedField'' = Some (JStr f)"
    and sa: "map_of params ''sortAscending'' = Some (JBool a)"
  let ?ds = "filter (matches (obj_get params ''query'')) (colls s h)"
  from r have res: "res = make_page (page_limit dflt mx (JNum L)) (sort_docs f a ?ds)"
    by (simp add: ref_paging_find_def map_of_obj_get [OF l] map_of_obj_get [OF pf]
        map_of_obj_get [OF sa] sort_field_of_def split: if_splits)
  have "int (length (results res)) \<le> int (page_limit dflt mx (JNum L))"
    unfolding res by (rule length_make_page)
  with page_limit_le [OF L, of dflt mx] have a1: "int (length (results res)) \<le> L" by linarith
  have a2: "ordered_by f a (results res)"
    unfolding res by (simp add: make_page_def ordered_by_take ordered_by_sort_docs)
  from a1 a2 show "int (length (results res)) \<le> L \<and> ordered_by f a (results res)" by simp
qed

lemma ref_search_contract: "search_contract (ref_pager dflt mx)"
  unfolding search_contract_def
proof (intro allI impI)
  fix h "term" params s res L
  assume r: "paging_search (ref_pager dflt mx) h term params s = Inr res"
    and l: "map_of params ''limit'' = Some (JNum L)" and L: "1 \<le> L"
  from r obtain ds where res: "res = make_page (page_limit dflt mx (JNum L)) ds"
    by (auto simp: ref_paging_search_def map_of_obj_get [OF l] split: if_splits jsval.splits)
  have "int (length (results res)) \<le> int (page_limit dflt mx (JNum L))"
    unfolding res by (rule length_make_page)
  with page_limit_le [OF L, of dflt mx] show "int (length (results res)) \<le> L" by linarith
qed

lemma ref_aggregate_contract: "aggregate_contract (ref_pager dflt mx)"
  unfolding aggregate_contract_def
proof (intro allI impI)
  fix h params s res L
  assume r: "paging_aggregate (ref_pager dflt mx) h params s = Inr res"
    and l: "map_of params ''limit'' = Some (JNum L)" and L: "1 \<le> L"
  from r obtain ds where res: "res = make_page (page_limit dflt mx (JNum L)) ds"
    by (auto simp: ref_paging_aggregate_def map_of_obj_get [OF l]
        split: if_splits jsval.splits list.splits)
  have "int (length (results res)) \<le> int (page_limit dflt mx (JNum L))"
    unfolding res by (rule length_make_page)
  with page_limit_le [OF L, of dflt mx] show "int (length (results res)) \<le> L" by linarith
qed

lemma find_repo_Inr:
  assumes "fst (find_repo E q r s) = Inr res"
  shows "\<exists>h f a. paginatedField r = Inr f \<and> paginatedAscending r = Inr a
           \<and> paging_find (MongoPaging E) h (find_params q f a) s = Inr res"
proof -
  obtain x r' where g: "getCollection E r s = (x, r')" by (cases "getCollection E r s")
  from getCollection_cases [OF g]
  have ov: "paginatedField r' = paginatedField r" "paginatedAscending r' = paginatedAscending r"
    by (simp_all add: paginatedField_def paginatedAscending_def)
  from assms g ov show ?thesis
    by (auto simp: find_repo_def rewrap_def split: sum.splits)
qed

lemma search_repo_Inr:
  assumes "fst (search_repo E q r s) = Inr res"
  shows "\<exists>h. paging_search (MongoPaging E) h (search q) (search_params q) s = Inr res"
proof -
  obtain x r' where g: "getCollection E r s = (x, r')" by (cases "getCollection E r s")
  from assms g show ?thesis
    by (auto simp: search_repo_def rewrap_def split: sum.splits)
qed

lemma aggregatePaging_Inr:
  assumes "fst (aggregatePaging E q r s) = Inr res"
  shows "\<exists>h f a. paging_aggregate (MongoPaging E) h (aggregatePaging_params q f a) s = Inr res"
proof -
  obtain x r' where g: "getCollection E r s = (x, r')" by (cases "getCollection E r s")
  from assms g show ?thesis
    by (auto simp: aggregatePaging_def rewrap_def split: sum.splits)
qed

lemma search_repo_ignores_pagination:
  "fst (search_repo E q (r\<lparr>paginatedField_override := Some f, paginatedAscending_override := Some a\<rparr>) s)
   = fst (search_repo E q (r\<lparr>paginatedField_override := Some f', paginatedAscending_override := Some a'\<rparr>) s)"
  by (simp add: search_repo_def getCollection_def paginatedField_def paginatedAscending_def
      split: option.splits sum.splits)

lemma aggregatePaging_direction_key:
  "map_of (find_params q f a) ''sortAscending'' = Some (JBool a)
   \<and> map_of (aggregatePaging_params q f a) ''sortAscending'' = None
   \<and> map_of (aggregatePaging_params q f a) ''paginatedAscending'' = Some (JBool a)"
  by (simp add: find_params_def aggregatePaging_params_def)

text \<open>
  C1, as amended. Let the paging library honour its parameters (a page is no longer than
  \<open>limit\<close>, and a page of \<open>find\<close> is sorted by \<open>paginatedField\<close> in the
  direction \<open>sortAscending\<close>) and let the query have \<open>limit = L\<close> with \<open>1 \<le> L\<close>.
  Then \<open>find\<close> returns at most \<open>L\<close> results ordered by the repository's
  \<open>paginatedField\<close> in the direction \<open>paginatedAscending\<close>, and \<open>search\<close> and
  \<open>aggregatePaging\<close> return at most \<open>L\<close> results. \<open>search\<close> hands the library
  neither the field nor the direction, so its result is the same whatever the
  repository's pagination configuration.
\<close>

theorem paged_operations_bounded_find_ordered:
  assumes fc: "find_contract (MongoPaging E)"
    and sc: "search_contract (MongoPaging E)"
    and ac: "aggregate_contract (MongoPaging E)"
    and lim: "limit q = JNum L" and L: "1 \<le> L"
  shows "(fst (find_repo E q r s) = Inr res \<longrightarrow>
            int (length (results res)) \<le> L
            \<and> (\<exists>f a. paginatedField r = Inr f \<and> paginatedAscending r = Inr a
                     \<and> ordered_by f a (results res)))
       \<and> (fst (search_repo E q r s) = Inr res \<longrightarrow> int (length (results res)) \<le> L)
       \<and> (fst (aggregatePaging E q r s) = Inr res \<longrightarrow> int (length (results res)) \<le> L)
       \<and> fst (search_repo E q
                (r\<lparr>paginatedField_override := Some f1, paginatedAscending_override := Some a1\<rparr>) s)
          = fst (search_repo E q
                (r\<lparr>paginatedField_override := Some f2, paginatedAscending_override := Some a2\<rparr>) s)"
proof -
  have a: "fst (find_repo E q r s) = Inr res \<longrightarrow>
            int (length (results res)) \<le> L
            \<and> (\<exists>f a. paginatedField r = Inr f \<and> paginatedAscending r = Inr a
                     \<and> ordered_by f a (results res))"
  proof
    assume "fst (find_repo E q r s) = Inr res"
    from find_repo_Inr [OF this] obtain h f a
      where pf: "paginatedField r = Inr f" and pa: "paginatedAscending r = Inr a"
        and call: "paging_find (MongoPaging E) h (find_params q f a) s = Inr res" by blast
    have p1: "map_of (find_params q f a) ''limit'' = Some (JNum L)"
      by (simp add: find_params_def lim)
    have p2: "map_of (find_params q f a) ''paginatedField'' = Some (JStr f)"
      by (simp add: find_params_def)
    have p3: "map_of (find_params q f a) ''sortAscending'' = Some (JBool a)"
      by (simp add: find_params_def)
    from fc call p1 L p2 p3
    have "int (length (results res)) \<le> L \<and> ordered_by f a (results res)"
      unfolding find_contract_def by blast
    with pf pa show "int (length (results res)) \<le> L
            \<and> (\<exists>f a. paginatedField r = Inr f \<and> paginatedAscending r = Inr a
                     \<and> ordered_by f a (results res))" by blast
  qed
  have b: "fst (search_repo E q r s) = Inr res \<longrightarrow> int (length (results res)) \<le> L"
  proof
    assume "fst (search_repo E q r s) = Inr res"
    from search_repo_Inr [OF this] obtain h
      where call: "paging_search (MongoPaging E) h (search q) (search_params q) s = Inr res"
      by blast
    have p1: "map_of (search_params q) ''limit'' = Some (JNum L)"
      by (simp add: search_params_def lim)
    from sc call p1 L show "int (length (results res)) \<le> L"
      unfolding search_contract_def by blast
  qed
  have c: "fst (aggregatePaging E q r s) = Inr res \<longrightarrow> int (length (results res)) \<le> L"
  proof
    assume "fst (aggregatePaging E q r s) = Inr res"
    from aggregatePaging_Inr [OF this] obtain h f a
      where call: "paging_aggregate (MongoPaging E) h (aggregatePaging_params q f a) s = Inr res"
      by blast
    have p1: "map_of (aggregatePaging_params q f a) ''limit'' = Some (JNum L)"
      by (simp add: aggregatePaging_params_def lim)
    from ac call p1 L show "int (length (results res)) \<le> L"
      unfolding aggregate_contract_def by blast
  qed
  from a b c search_repo_ignores_pagination [where E = E and q = q and r = r and s = s and f = f1 and a = a1 and f' = f2 and a' = a2] show ?thesis by blast
qed



lemma search_org_eval:
  "fst (search_repo ref_env search_query OrganizationRepository org_store)
     = Inr (make_page 10 [acme_hit_old, acme_hit_new])"
  apply (simp add: search_repo_def)
  apply (simp add: search_query_def api_query_def search_params_def
      OrganizationRepository_def handle_of_def with_handle_def paginatedField_def
      paginatedAscending_def rewrap_def)
  apply (simp add: ref_paging_search_def has_cursor_def obj_get_def
      supported_def matches_def page_limit_def org_store_def inclusion_def plain_key_def)
  apply (simp add: text_score_def field_value_def search_hit_def
      org_acme_old_def org_acme_new_def acme_hit_old_def acme_hit_new_def)
  done

text \<open>
  Searching the two organizations for \<open>acme\<close> with the projection
  \<open>{ createdOn: 1 }\<close> on the reference library returns the better match first, which
  is the older one: the page carries \<open>createdOn\<close> 100 before 200, although
  \<open>OrganizationRepository\<close> paginates by \<open>createdOn\<close> descending.
\<close>

theorem search_not_ordered_by_paginatedField:
  "paginatedField OrganizationRepository = Inr ''createdOn''
   \<and> paginatedAscending OrganizationRepository = Inr False
   \<and> limit search_query = JNum 10
   \<and> fst (search_repo ref_env search_query OrganizationRepository org_store)
       = Inr (make_page 10 [acme_hit_old, acme_hit_new])
   \<and> \<not> ordered_by ''createdOn'' False (results (make_page 10 [acme_hit_old, acme_hit_new]))"
proof -
  have pf: "paginatedField OrganizationRepository = Inr ''createdOn''"
    by (simp add: paginatedField_def OrganizationRepository_def)
  have pa: "paginatedAscending OrganizationRepository = Inr False"
    by (simp add: paginatedAscending_def OrganizationRepository_def)
  have lim: "limit search_query = JNum 10" by (simp add: search_query_def api_query_def)
  have no: "\<not> ordered_by ''createdOn'' False (results (make_page 10 [acme_hit_old, acme_hit_new]))"
    by (simp add: make_page_def ordered_by_def value_le_def field_value_def
        acme_hit_old_def acme_hit_new_def)
  from pf pa lim search_org_eval no show ?thesis by (intro conjI)
qed

lemma find_org_eval:
  "fst (find_repo ref_env (api_query (JObj [])) OrganizationRepository org_store)
     = Inr (make_page 10 [org_acme_new, org_acme_old])"
  apply (simp add: find_repo_def)
  apply (simp add: api_query_def find_params_def find_projection_def Object_keys_def
      OrganizationRepository_def handle_of_def with_handle_def paginatedField_def
      paginatedAscending_def rewrap_def)
  apply (simp add: ref_paging_find_def has_cursor_def obj_get_def
      supported_def matches_def page_limit_def org_store_def sort_docs_def sort_field_of_def)
  apply (simp add: field_value_def org_acme_old_def org_acme_new_def)
  done

theorem paged_operations_witness:
  "fst (find_repo ref_env (api_query (JObj [])) OrganizationRepository org_store)
     = Inr (make_page 10 [org_acme_new, org_acme_old])
   \<and> int (length (results (make_page 10 [org_acme_new, org_acme_old]))) \<le> 10
   \<and> ordered_by ''createdOn'' False (results (make_page 10 [org_acme_new, org_acme_old]))"
proof -
  have fc: "find_contract (MongoPaging ref_env)" by (simp add: ref_find_contract)
  have sc: "search_contract (MongoPaging ref_env)" by (simp add: ref_search_contract)
  have ac: "aggregate_contract (MongoPaging ref_env)" by (simp add: ref_aggregate_contract)
  have lim: "limit (api_query (JObj [])) = JNum 10" by (simp add: api_query_def)
  have L: "(1::int) \<le> 10" by simp
  have pf: "paginatedField OrganizationRepository = Inr ''createdOn''"
    by (simp add: paginatedField_def OrganizationRepository_def)
  have pa: "paginatedAscending OrganizationRepository = Inr False"
    by (simp add: paginatedAscending_def OrganizationRepository_def)
  from paged_operations_bounded_find_ordered
         [OF fc sc ac lim L, where r = OrganizationRepository and s = org_store
            and res = "make_page 10 [org_acme_new, org_acme_old]", THEN conjunct1]
       find_org_eval
  have "int (length (results (make_page 10 [org_acme_new, org_acme_old]))) \<le> 10
        \<and> (\<exists>f a. paginatedField OrganizationRepository = Inr f
                 \<and> paginatedAscending OrganizationRepository = Inr a
                 \<and> ordered_by f a (results (make_page 10 [org_acme_new, org_acme_old])))"
    by simp
  then show ?thesis using find_org_eval by (auto simp: pf pa)
qed

section \<open>Upserts on the reference store\<close>







lemma map_of_with_id:
  "k \<noteq> ''_id'' \<Longrightarrow> map_of (with_id n d) k = map_of d k"
  by (simp add: with_id_def)






lemma colls_put_coll_other [simp]:
  "colls ((put_coll h ds s)\<lparr>next_oid := n\<rparr>) h = ds"
  by (simp add: put_coll_def)


lemma handle_with_handle [simp]:
  "handle_of (with_handle r) = handle_of r" "with_handle (with_handle r) = with_handle r"
  by (simp_all add: handle_of_def with_handle_def split: option.splits)



lemma value_of_fau_result [simp]:
  "rewrap (and_then (Inr (fau_result v)) (\<lambda>result. get_prop result ''value'')) = Inr v"
  by (simp add: rewrap_def and_then_def fau_result_def)
















text \<open>
  \<open>aggregatePaging\<close> names the direction \<open>paginatedAscending\<close> in its parameter
  object where \<open>find\<close> names it \<open>sortAscending\<close>. A library that reads
  \<open>sortAscending\<close> sees none and sorts descending, also for a repository that asks
  for ascending order.
\<close>

lemma aggregatePaging_ascending_repository_page:
  "fst (aggregatePaging ref_env (api_query (JArr []))
          (OrganizationRepository\<lparr>paginatedAscending_override := Some True\<rparr>) org_store)
     = Inr (make_page 10 [org_acme_new, org_acme_old])"
  apply (simp add: aggregatePaging_def)
  apply (simp add: api_query_def aggregatePaging_params_def
      OrganizationRepository_def handle_of_def with_handle_def paginatedField_def
      paginatedAscending_def rewrap_def)
  apply (simp add: ref_paging_aggregate_def has_cursor_def obj_get_def
      page_limit_def org_store_def sort_docs_def sort_field_of_def)
  apply (simp add: field_value_def org_acme_old_def org_acme_new_def)
  done

end
